theory Spec2Isabelle
  imports Complex_Main
begin

section \<open>Repository analysis page: URL parsing\<close>

text \<open>
  \<^verbatim>\<open>parseGitHubUrl\<close> searches the URL for the regular expression
  \<^verbatim>\<open>/github\.com\/([^/]+)\/([^/]+)/\<close>. The expression is not anchored, so the
  engine tries every start position from the left and stops at the first one where the
  expression matches. Both groups are greedy runs of characters other than a slash.
\<close>

definition github_prefix :: string where
  "github_prefix = ''github.com/''"

definition not_slash :: "char \<Rightarrow> bool" where
  "not_slash c = (c \<noteq> CHR ''/'')"

text \<open>
  The match attempt at the very start of \<open>s\<close>: the literal, then the longest run without
  a slash (the owner), then a slash, then the longest run without a slash (the repo).
  Giving back characters of the owner run never helps, since the character after a
  shorter owner is not a slash.
\<close>

definition match_at :: "string \<Rightarrow> (string \<times> string) option" where
  "match_at s =
     (if take (length github_prefix) s = github_prefix then
        (let rest = drop (length github_prefix) s;
             g1 = takeWhile not_slash rest;
             rest2 = dropWhile not_slash rest
         in if g1 = [] then None
            else (case rest2 of
                    [] \<Rightarrow> None
                  | _ # rest3 \<Rightarrow>
                      (let g2 = takeWhile not_slash rest3
                       in if g2 = [] then None else Some (g1, g2))))
      else None)"

text \<open>\<^verbatim>\<open>url.match(regex)\<close>: the leftmost start position that matches.\<close>

fun regex_match :: "string \<Rightarrow> (string \<times> string) option" where
  "regex_match [] = match_at []"
| "regex_match (c # cs) =
     (case match_at (c # cs) of
        Some m \<Rightarrow> Some m
      | None \<Rightarrow> regex_match cs)"

text \<open>
  \<^verbatim>\<open>s.replace(pat, rep)\<close> with a string pattern: only the first occurrence is replaced.
\<close>

fun replace_first :: "string \<Rightarrow> string \<Rightarrow> string \<Rightarrow> string" where
  "replace_first pat rep [] = (if pat = [] then rep else [])"
| "replace_first pat rep (c # cs) =
     (if take (length pat) (c # cs) = pat then rep @ drop (length pat) (c # cs)
      else c # replace_first pat rep cs)"

text \<open>The result object \<^verbatim>\<open>{owner, repo}\<close> is a pair; \<^verbatim>\<open>null\<close> is \<open>None\<close>.\<close>

definition parseGitHubUrl :: "string \<Rightarrow> (string \<times> string) option" where
  "parseGitHubUrl url =
     (case regex_match url of
        Some (g1, g2) \<Rightarrow> Some (g1, replace_first ''.git'' '''' g2)
      | None \<Rightarrow> None)"

text \<open>
  The language of the regular expression, stated without reference to the matcher: some
  occurrence of the literal is followed by a non-empty run without a slash, a slash, and
  a non-empty run without a slash.
\<close>

definition matches_pattern :: "string \<Rightarrow> bool" where
  "matches_pattern s =
     (\<exists>pre g1 g2 post.
        s = pre @ github_prefix @ g1 @ ''/'' @ g2 @ post \<and>
        g1 \<noteq> [] \<and> g2 \<noteq> [] \<and> list_all not_slash g1 \<and> list_all not_slash g2)"

section \<open>Repository analysis page: component state\<close>

text \<open>
  The \<^verbatim>\<open>useState\<close> cells of \<^verbatim>\<open>RepositoryAnalysis\<close>, with their initial values.
  A JavaScript string is truthy exactly when it is not empty.
\<close>

datatype repository = Repository (repo_owner: string) (repo_name: string)

record analysis_state =
  githubUrl :: string
  accessToken :: string
  companyName :: string
  reportFormat :: string
  includeBenchmarks :: bool
  includeSuggestions :: bool
  isLoading :: bool
  progress :: rat
  error :: string
  repositories :: "repository list"
  selectedRepo :: string

definition initial_state :: analysis_state where
  "initial_state =
     \<lparr>githubUrl = '''', accessToken = '''', companyName = '''', reportFormat = ''html'',
      includeBenchmarks = True, includeSuggestions = True, isLoading = False, progress = 0,
      error = '''', repositories = [], selectedRepo = ''''\<rparr>"

text \<open>
  The body of the POST to \<^verbatim>\<open>/api/report/generate\<close>. A field whose value is
  \<^verbatim>\<open>undefined\<close> is \<open>None\<close>: \<^verbatim>\<open>repo\<close> when the selected repository has no
  slash, \<^verbatim>\<open>company_name\<close> when the company name is empty.
\<close>

record generate_request =
  owner :: string
  repo :: "string option"
  access_token :: string
  company_name :: "string option"
  include_benchmarks :: bool
  include_suggestions :: bool
  format :: string

text \<open>
  The outcome of the awaited request: the promise resolves, or it rejects with an error
  whose \<^verbatim>\<open>response?.data?.detail\<close> is a string or is missing.
\<close>

datatype http_result = Resolved | Rejected "string option"

datatype toast = Toast (title: string) (description: string) (status: string)

text \<open>
  What one call of a handler does besides updating the state: the report requests it
  sends, the toasts it shows, the navigations it schedules, and the values its own timer
  gave the progress cell while the request was awaited: the value the one-second timer
  started from, then the value after each firing until the timer was cleared. The list is
  empty when no timer was created.
\<close>

record effects =
  requests :: "generate_request list"
  toasts :: "toast list"
  navigations :: "string list"
  progress_shown :: "rat list"

definition no_effects :: effects where
  "no_effects = \<lparr>requests = [], toasts = [], navigations = [], progress_shown = []\<rparr>"

text \<open>\<^verbatim>\<open>a || b\<close> on an optional string: the empty string and a missing value are falsy.\<close>

definition or_else :: "string option \<Rightarrow> string \<Rightarrow> string" where
  "or_else v fallback =
     (case v of None \<Rightarrow> fallback | Some x \<Rightarrow> if x = [] then fallback else x)"

text \<open>\<^verbatim>\<open>s.split(d)\<close> for a one-character separator: never an empty array.\<close>

fun split_on :: "char \<Rightarrow> string \<Rightarrow> string list" where
  "split_on d [] = [[]]"
| "split_on d (c # cs) =
     (if c = d then [] # split_on d cs
      else (case split_on d cs of
              [] \<Rightarrow> [[c]]
            | w # ws \<Rightarrow> (c # w) # ws))"

text \<open>
  The owner and the repo of the request: from the selected repository when there is one
  (array destructuring of the split, whose second element may be missing), from the URL
  otherwise. \<open>None\<close> is the early return on a URL that does not parse.
\<close>

definition resolve_target :: "analysis_state \<Rightarrow> (string \<times> string option) option" where
  "resolve_target st =
     (if selectedRepo st \<noteq> [] then
        (case split_on (CHR ''/'') (selectedRepo st) of
           [] \<Rightarrow> None
         | [repoOwner] \<Rightarrow> Some (repoOwner, None)
         | repoOwner # repoName # _ \<Rightarrow> Some (repoOwner, Some repoName))
      else
        (case parseGitHubUrl (githubUrl st) of
           None \<Rightarrow> None
         | Some (g1, g2) \<Rightarrow> Some (g1, Some g2)))"

subsection \<open>The progress timer\<close>

text \<open>
  The timer callback computes \<^verbatim>\<open>prev + (100 - prev) * 0.1\<close> in double precision and
  caps the result at 95. The state holds doubles, which are rationals. Each of the three
  operations rounds its exact result to a double: \<open>rnd\<close> is that rounding and \<open>tenth\<close>
  the double written \<^verbatim>\<open>0.1\<close>. Rounding to nearest is monotone, leaves a double as
  it is, and the small integers used here are doubles.
\<close>

definition rounding :: "(rat \<Rightarrow> rat) \<Rightarrow> bool" where
  "rounding rnd =
     (mono rnd \<and> (\<forall>x. rnd (rnd x) = rnd x) \<and> rnd 0 = 0 \<and> rnd 5 = 5 \<and> rnd 95 = 95)"

definition tick :: "(rat \<Rightarrow> rat) \<Rightarrow> rat \<Rightarrow> rat \<Rightarrow> rat" where
  "tick rnd tenth prev =
     (let newProgress = rnd (prev + rnd (rnd (100 - prev) * tenth))
      in if newProgress \<ge> 95 then 95 else newProgress)"

text \<open>The progress shown after \<open>n\<close> firings of the timer, from the value it started at.\<close>

fun in_flight :: "(rat \<Rightarrow> rat) \<Rightarrow> rat \<Rightarrow> nat \<Rightarrow> rat \<Rightarrow> rat" where
  "in_flight rnd tenth 0 p = p"
| "in_flight rnd tenth (Suc n) p = in_flight rnd tenth n (tick rnd tenth p)"

subsection \<open>startAnalysis\<close>

definition invalid_url_message :: string where
  "invalid_url_message =
     ''Invalid GitHub URL format. Please use a URL like https://github.com/owner/repo''"

definition token_required_message :: string where
  "token_required_message = ''GitHub access token is required''"

definition analysis_error_message :: string where
  "analysis_error_message = ''Error during analysis''"

text \<open>The body of the request, from the state and the owner and repo found.\<close>

definition request_body ::
  "analysis_state \<Rightarrow> string \<Rightarrow> string option \<Rightarrow> generate_request" where
  "request_body st g1 g2 =
     \<lparr>owner = g1, repo = g2, access_token = accessToken st,
      company_name = (if companyName st = [] then None else Some (companyName st)),
      include_benchmarks = includeBenchmarks st,
      include_suggestions = includeSuggestions st,
      format = reportFormat st\<rparr>"

text \<open>
  One call of \<^verbatim>\<open>startAnalysis\<close>, run to the end of its \<^verbatim>\<open>finally\<close> block
  with no other handler and no other timer in between. \<open>post\<close> is the server as the
  call sees it, and \<open>n\<close> the number of times the timer of the call fires while the
  request is awaited. The timer is created only after both checks have passed and is
  cleared in both branches of the \<^verbatim>\<open>try\<close>. Calls that overlap are the subject of
  the last part of this section.
\<close>

definition startAnalysis ::
  "(rat \<Rightarrow> rat) \<Rightarrow> rat \<Rightarrow> (generate_request \<Rightarrow> http_result) \<Rightarrow> nat \<Rightarrow>
   analysis_state \<Rightarrow> analysis_state \<times> effects" where
  "startAnalysis rnd tenth post n st =
     (let st1 = st\<lparr>error := '''', isLoading := True, progress := 0\<rparr> in
      case resolve_target st1 of
        None \<Rightarrow> (st1\<lparr>error := invalid_url_message, isLoading := False\<rparr>, no_effects)
      | Some (g1, g2) \<Rightarrow>
          if accessToken st1 = [] then
            (st1\<lparr>error := token_required_message, isLoading := False\<rparr>, no_effects)
          else
            (let req = request_body st1 g1 g2;
                 shown = map (\<lambda>k. in_flight rnd tenth k (progress st1)) [0..<Suc n];
                 st2 = st1\<lparr>progress := in_flight rnd tenth n (progress st1)\<rparr>
             in case post req of
                  Resolved \<Rightarrow>
                    (st2\<lparr>progress := 100, isLoading := False\<rparr>,
                     \<lparr>requests = [req],
                      toasts = [Toast ''Analysis Complete''
                                  ''Repository analysis and report generation successful''
                                  ''success''],
                      navigations = [''/reports''],
                      progress_shown = shown\<rparr>)
                | Rejected detail \<Rightarrow>
                    (st2\<lparr>progress := 0,
                         error := or_else detail analysis_error_message,
                         isLoading := False\<rparr>,
                     \<lparr>requests = [req],
                      toasts = [Toast ''Analysis Failed''
                                  (or_else detail analysis_error_message) ''error''],
                      navigations = [],
                      progress_shown = shown\<rparr>)))"

subsection \<open>fetchRepositories and the form controls\<close>

datatype repos_result = ReposOk "repository list" | ReposFailed "string option"

text \<open>A number inside a template literal: its decimal digits.\<close>

fun show_nat :: "nat \<Rightarrow> string" where
  "show_nat n =
     (if n < 10 then [char_of (48 + n)]
      else show_nat (n div 10) @ [char_of (48 + n mod 10)])"

declare show_nat.simps [simp del]

text \<open>
  \<^verbatim>\<open>fetchRepositories\<close> with the answer of the GET request: the new state and the
  toast shown, if any.
\<close>

definition fetchRepositories ::
  "repos_result \<Rightarrow> analysis_state \<Rightarrow> analysis_state \<times> toast list" where
  "fetchRepositories res st =
     (if accessToken st = [] then (st\<lparr>error := token_required_message\<rparr>, [])
      else
        (let st1 = st\<lparr>isLoading := True, error := ''''\<rparr> in
         case res of
           ReposOk rs \<Rightarrow>
             (st1\<lparr>repositories := rs, isLoading := False\<rparr>,
              [Toast ''Repositories fetched''
                 (''Found '' @ show_nat (length rs) @ '' repositories'') ''success''])
         | ReposFailed detail \<Rightarrow>
             (st1\<lparr>error := or_else detail ''Error fetching repositories'',
                  isLoading := False\<rparr>,
              [Toast ''Error'' (or_else detail ''Failed to fetch repositories'') ''error''])))"

text \<open>The three \<^verbatim>\<open>option\<close> elements of the report format control and their values.\<close>

datatype format_option = HTML | PDF | Markdown

fun option_value :: "format_option \<Rightarrow> string" where
  "option_value HTML = ''html''"
| "option_value PDF = ''pdf''"
| "option_value Markdown = ''markdown''"

text \<open>
  What the user can do on the page. A text input reports any string; the format control
  reports the value of one of its options; the two buttons run their handlers, with the
  answer of the server for that call.
\<close>

datatype ui_event =
    ChangeGithubUrl string
  | ChangeAccessToken string
  | ChangeCompanyName string
  | ChangeReportFormat format_option
  | ChangeIncludeBenchmarks bool
  | ChangeIncludeSuggestions bool
  | ChangeSelectedRepo string
  | ClickConnect repos_result
  | ClickStartAnalysis "generate_request \<Rightarrow> http_result" nat

text \<open>Whether an event is a choice made in the report format control.\<close>

fun is_format_change :: "ui_event \<Rightarrow> bool" where
  "is_format_change (ChangeReportFormat f) = True"
| "is_format_change e = False"

text \<open>
  The \<^verbatim>\<open>isLoading\<close> and \<^verbatim>\<open>isDisabled\<close> attributes of the two buttons: a click on
  a button in either condition runs no handler.
\<close>

definition connect_disabled :: "analysis_state \<Rightarrow> bool" where
  "connect_disabled st = (isLoading st \<and> progress st = 0)"

definition start_disabled :: "analysis_state \<Rightarrow> bool" where
  "start_disabled st =
     ((isLoading st \<and> progress st > 0) \<or>
      isLoading st \<or> (githubUrl st = [] \<and> selectedRepo st = []) \<or> accessToken st = [])"

fun handle_event ::
  "(rat \<Rightarrow> rat) \<Rightarrow> rat \<Rightarrow> ui_event \<Rightarrow> analysis_state \<Rightarrow> analysis_state \<times> effects" where
  "handle_event rnd tenth (ChangeGithubUrl v) st =
     (st\<lparr>githubUrl := v, selectedRepo := ''''\<rparr>, no_effects)"
| "handle_event rnd tenth (ChangeAccessToken v) st = (st\<lparr>accessToken := v\<rparr>, no_effects)"
| "handle_event rnd tenth (ChangeCompanyName v) st = (st\<lparr>companyName := v\<rparr>, no_effects)"
| "handle_event rnd tenth (ChangeReportFormat f) st =
     (st\<lparr>reportFormat := option_value f\<rparr>, no_effects)"
| "handle_event rnd tenth (ChangeIncludeBenchmarks b) st =
     (st\<lparr>includeBenchmarks := b\<rparr>, no_effects)"
| "handle_event rnd tenth (ChangeIncludeSuggestions b) st =
     (st\<lparr>includeSuggestions := b\<rparr>, no_effects)"
| "handle_event rnd tenth (ChangeSelectedRepo v) st =
     (st\<lparr>selectedRepo := v, githubUrl := ''''\<rparr>, no_effects)"
| "handle_event rnd tenth (ClickConnect res) st =
     (if connect_disabled st then (st, no_effects)
      else (fst (fetchRepositories res st),
            no_effects\<lparr>toasts := snd (fetchRepositories res st)\<rparr>))"
| "handle_event rnd tenth (ClickStartAnalysis post n) st =
     (if start_disabled st then (st, no_effects)
      else startAnalysis rnd tenth post n st)"

text \<open>A session on the page: the events in order, with every request sent on the way.\<close>

fun run_events ::
  "(rat \<Rightarrow> rat) \<Rightarrow> rat \<Rightarrow> ui_event list \<Rightarrow> analysis_state \<Rightarrow>
   analysis_state \<times> generate_request list" where
  "run_events rnd tenth [] st = (st, [])"
| "run_events rnd tenth (e # es) st =
     (case handle_event rnd tenth e st of
        (st', eff) \<Rightarrow>
          (case run_events rnd tenth es st' of
             (st'', reqs) \<Rightarrow> (st'', requests eff @ reqs)))"

definition report_formats :: "string list" where
  "report_formats = [''html'', ''pdf'', ''markdown'']"

subsection \<open>Handlers that overlap\<close>

text \<open>
  The two handlers are asynchronous. Each runs up to its \<^verbatim>\<open>await\<close> when its button
  is clicked, and what follows the \<^verbatim>\<open>await\<close> runs when the request settles. In
  between the timers fire and the user can act, so calls can overlap. \<open>startAnalysis\<close>
  above is one call with nothing in between; here the call is taken apart.
\<close>

text \<open>
  \<^verbatim>\<open>startAnalysis\<close> up to the \<^verbatim>\<open>await\<close>: the new state, and the request sent
  unless one of the two checks returned early.
\<close>

definition startAnalysis_begin ::
  "analysis_state \<Rightarrow> analysis_state \<times> generate_request option" where
  "startAnalysis_begin st =
     (let st1 = st\<lparr>error := '''', isLoading := True, progress := 0\<rparr> in
      case resolve_target st1 of
        None \<Rightarrow> (st1\<lparr>error := invalid_url_message, isLoading := False\<rparr>, None)
      | Some (g1, g2) \<Rightarrow>
          if accessToken st1 = [] then
            (st1\<lparr>error := token_required_message, isLoading := False\<rparr>, None)
          else (st1, Some (request_body st1 g1 g2)))"

text \<open>
  \<^verbatim>\<open>startAnalysis\<close> after the \<^verbatim>\<open>await\<close>: the \<^verbatim>\<open>try\<close> branch or the
  \<^verbatim>\<open>catch\<close> branch, then \<^verbatim>\<open>finally\<close>. All three write the cells without
  reading them.
\<close>

definition startAnalysis_settle :: "http_result \<Rightarrow> analysis_state \<Rightarrow> analysis_state" where
  "startAnalysis_settle res st =
     (case res of
        Resolved \<Rightarrow> st\<lparr>progress := 100, isLoading := False\<rparr>
      | Rejected detail \<Rightarrow>
          st\<lparr>progress := 0, error := or_else detail analysis_error_message,
             isLoading := False\<rparr>)"

text \<open>
  \<^verbatim>\<open>fetchRepositories\<close> up to the \<^verbatim>\<open>await\<close> (with whether a request was sent)
  and after it.
\<close>

definition fetchRepositories_begin :: "analysis_state \<Rightarrow> analysis_state \<times> bool" where
  "fetchRepositories_begin st =
     (if accessToken st = [] then (st\<lparr>error := token_required_message\<rparr>, False)
      else (st\<lparr>isLoading := True, error := ''''\<rparr>, True))"

definition fetchRepositories_settle :: "repos_result \<Rightarrow> analysis_state \<Rightarrow> analysis_state" where
  "fetchRepositories_settle res st =
     (case res of
        ReposOk rs \<Rightarrow> st\<lparr>repositories := rs, isLoading := False\<rparr>
      | ReposFailed detail \<Rightarrow>
          st\<lparr>error := or_else detail ''Error fetching repositories'', isLoading := False\<rparr>)"

text \<open>
  The page between two steps: the state cells; the calls of \<^verbatim>\<open>startAnalysis\<close> that
  await their request, each with its timer running, named by the order they were made in;
  the number of calls of \<^verbatim>\<open>fetchRepositories\<close> that await theirs; the number of
  calls of \<^verbatim>\<open>startAnalysis\<close> made so far; the requests sent so far; the number of
  navigations to the reports page that are scheduled; and whether the component is still
  mounted.
\<close>

record page =
  cells :: analysis_state
  calls :: "nat list"
  connects :: nat
  started :: nat
  posted :: "generate_request list"
  leaving :: nat
  mounted :: bool

definition initial_page :: page where
  "initial_page =
     \<lparr>cells = initial_state, calls = [], connects = 0, started = 0, posted = [],
      leaving = 0, mounted = True\<rparr>"

text \<open>
  What can happen next: the user changes a control, clicks one of the two buttons, a
  request settles, the timer of a call fires, or a scheduled navigation takes place.
\<close>

datatype page_step =
    Edit ui_event
  | PressConnect
  | GetSettles repos_result
  | PressStart
  | TimerFires nat
  | PostSettles nat http_result
  | NavigationFires

fun is_click :: "ui_event \<Rightarrow> bool" where
  "is_click (ClickConnect res) = True"
| "is_click (ClickStartAnalysis post n) = True"
| "is_click e = False"

text \<open>
  Which controls the user can change. The URL input is disabled while a repository is
  selected. The repository control is shown only when there are repositories, and it
  reports its placeholder, the empty string, or the value \<^verbatim>\<open>owner/name\<close> of one of
  them.
\<close>

definition repo_option :: "repository \<Rightarrow> string" where
  "repo_option r = repo_owner r @ ''/'' @ repo_name r"

fun control_enabled :: "analysis_state \<Rightarrow> ui_event \<Rightarrow> bool" where
  "control_enabled st (ChangeGithubUrl v) = (selectedRepo st = [])"
| "control_enabled st (ChangeSelectedRepo v) =
     (repositories st \<noteq> [] \<and> (v = [] \<or> v \<in> set (map repo_option (repositories st))))"
| "control_enabled st e = True"

text \<open>
  One step. A change of a control that is disabled, a click on a button that is disabled,
  the timer or the request of a call that has settled, and a navigation that nothing
  scheduled change nothing. The navigation unmounts the component, and an unmounted
  component ignores every update of its state. Toasts do not touch the cells and are
  left to \<open>startAnalysis\<close> and \<open>fetchRepositories\<close> above.
\<close>

definition step :: "(rat \<Rightarrow> rat) \<Rightarrow> rat \<Rightarrow> page_step \<Rightarrow> page \<Rightarrow> page" where
  "step rnd tenth s p =
     (if \<not> mounted p then p
      else
        (case s of
           Edit e \<Rightarrow>
             if is_click e \<or> \<not> control_enabled (cells p) e then p
             else p\<lparr>cells := fst (handle_event rnd tenth e (cells p))\<rparr>
         | PressConnect \<Rightarrow>
             if connect_disabled (cells p) then p
             else p\<lparr>cells := fst (fetchRepositories_begin (cells p)),
                    connects :=
                      (if snd (fetchRepositories_begin (cells p)) then Suc (connects p)
                       else connects p)\<rparr>
         | GetSettles res \<Rightarrow>
             if connects p = 0 then p
             else p\<lparr>cells := fetchRepositories_settle res (cells p),
                    connects := connects p - 1\<rparr>
         | PressStart \<Rightarrow>
             if start_disabled (cells p) then p
             else
               (case snd (startAnalysis_begin (cells p)) of
                  None \<Rightarrow> p\<lparr>cells := fst (startAnalysis_begin (cells p))\<rparr>
                | Some req \<Rightarrow>
                    p\<lparr>cells := fst (startAnalysis_begin (cells p)),
                      calls := calls p @ [started p],
                      started := Suc (started p),
                      posted := posted p @ [req]\<rparr>)
         | TimerFires k \<Rightarrow>
             if k \<in> set (calls p) then
               p\<lparr>cells := (cells p)\<lparr>progress := tick rnd tenth (progress (cells p))\<rparr>\<rparr>
             else p
         | PostSettles k res \<Rightarrow>
             if k \<in> set (calls p) then
               p\<lparr>cells := startAnalysis_settle res (cells p),
                 calls := removeAll k (calls p),
                 leaving := (if res = Resolved then Suc (leaving p) else leaving p)\<rparr>
             else p
         | NavigationFires \<Rightarrow>
             if leaving p = 0 then p else p\<lparr>mounted := False\<rparr>))"

text \<open>The page after each of a list of steps, and the page after the last of them.\<close>

fun run_steps :: "(rat \<Rightarrow> rat) \<Rightarrow> rat \<Rightarrow> page_step list \<Rightarrow> page \<Rightarrow> page list" where
  "run_steps rnd tenth [] p = []"
| "run_steps rnd tenth (s # ss) p =
     step rnd tenth s p # run_steps rnd tenth ss (step rnd tenth s p)"

fun after_steps :: "(rat \<Rightarrow> rat) \<Rightarrow> rat \<Rightarrow> page_step list \<Rightarrow> page \<Rightarrow> page" where
  "after_steps rnd tenth [] p = p"
| "after_steps rnd tenth (s # ss) p = after_steps rnd tenth ss (step rnd tenth s p)"

text \<open>The progress is in the range the timer keeps it in, and is a double.\<close>

definition in_range :: "(rat \<Rightarrow> rat) \<Rightarrow> rat \<Rightarrow> bool" where
  "in_range rnd v = (0 \<le> v \<and> v \<le> 95 \<and> rnd v = v)"

section \<open>Authentication provider\<close>

text \<open>
  The state of \<^verbatim>\<open>AuthProvider\<close> together with what it touches outside React: the
  browser's \<^verbatim>\<open>localStorage\<close>, which outlives the page, and the route last
  navigated to.
\<close>

record user_info =
  username :: string
  avatar :: string

record auth_state =
  user :: "user_info option"
  githubToken :: "string option"
  loading :: bool
  localStorage :: "string \<rightharpoonup> string"
  location :: string

text \<open>
  The answer of \<^verbatim>\<open>/api/github/connect\<close>: a response whose \<^verbatim>\<open>data\<close> may be
  missing, or a thrown error whose \<^verbatim>\<open>response?.data?.detail\<close> may be missing.
\<close>

datatype connect_data = ConnectData (data_status: string) (data_username: string)

datatype connect_result = Responded "connect_data option" | Threw "string option"

record login_result =
  success :: bool
  message :: "string option"

definition token_key :: string where
  "token_key = ''github_token''"

text \<open>\<^verbatim>\<open>response.data && response.data.status === "connected"\<close>\<close>

definition connected :: "connect_data option \<Rightarrow> bool" where
  "connected d = (case d of None \<Rightarrow> False | Some x \<Rightarrow> data_status x = ''connected'')"

definition user_of :: "connect_data option \<Rightarrow> user_info option" where
  "user_of d =
     (case d of
        None \<Rightarrow> None
      | Some x \<Rightarrow>
          Some \<lparr>username = data_username x,
                avatar = ''https://github.com/'' @ data_username x @ ''.png''\<rparr>)"

text \<open>Whether the connect endpoint answered with the status \<^verbatim>\<open>connected\<close>.\<close>

fun is_connected :: "connect_result \<Rightarrow> bool" where
  "is_connected (Responded d) = connected d"
| "is_connected (Threw detail) = False"

text \<open>
  The provider starts from what the browser stored:
  \<^verbatim>\<open>localStorage.getItem("github_token") || null\<close>.
\<close>

definition initial_auth :: "(string \<rightharpoonup> string) \<Rightarrow> string \<Rightarrow> auth_state" where
  "initial_auth store path =
     \<lparr>user = None,
      githubToken =
        (case store token_key of
           None \<Rightarrow> None
         | Some t \<Rightarrow> if t = [] then None else Some t),
      loading = True, localStorage = store, location = path\<rparr>"

definition login ::
  "string \<Rightarrow> (string \<Rightarrow> connect_result) \<Rightarrow> auth_state \<Rightarrow> login_result \<times> auth_state" where
  "login token connect st =
     (let st1 = st\<lparr>loading := True\<rparr> in
      case connect token of
        Responded d \<Rightarrow>
          if connected d then
            (\<lparr>success = True, message = None\<rparr>,
             st1\<lparr>localStorage := (localStorage st1)(token_key \<mapsto> token),
                 githubToken := Some token,
                 user := user_of d,
                 location := ''/'',
                 loading := False\<rparr>)
          else
            (\<lparr>success = False, message = Some ''Failed to connect to GitHub''\<rparr>,
             st1\<lparr>loading := False\<rparr>)
      | Threw detail \<Rightarrow>
          (\<lparr>success = False, message = Some (or_else detail ''Invalid GitHub token'')\<rparr>,
           st1\<lparr>loading := False\<rparr>))"

definition logout :: "auth_state \<Rightarrow> auth_state" where
  "logout st =
     st\<lparr>localStorage := (localStorage st)(token_key := None),
        githubToken := None,
        user := None,
        location := ''/login''\<rparr>"

text \<open>The effect that runs whenever the token in the state changes.\<close>

definition validateToken :: "(string \<Rightarrow> connect_result) \<Rightarrow> auth_state \<Rightarrow> auth_state" where
  "validateToken connect st =
     (case githubToken st of
        None \<Rightarrow> st\<lparr>loading := False\<rparr>
      | Some t \<Rightarrow>
          if t = [] then st\<lparr>loading := False\<rparr>
          else
            (case connect t of
               Responded d \<Rightarrow>
                 if connected d then st\<lparr>user := user_of d, loading := False\<rparr>
                 else (logout st)\<lparr>loading := False\<rparr>
             | Threw detail \<Rightarrow> (logout st)\<lparr>loading := False\<rparr>))"

section \<open>Dashboard statistics\<close>

text \<open>
  \<^verbatim>\<open>fetchDashboardData\<close> fills the four numbers of the dashboard. Two of them come from
  \<^verbatim>\<open>Math.random()\<close>; the two draws, numbers from 0 up to but not including 1, are
  the arguments \<open>u1\<close> and \<open>u2\<close>. The products are taken exactly; at the draws 0 and
  1/2 used below the double-precision products are exact as well.
\<close>

record stats =
  totalReports :: nat
  totalRepositories :: nat
  averageScore :: int
  techDebtHours :: int

text \<open>
  The state cells of \<^verbatim>\<open>Dashboard\<close>. The cells \<^verbatim>\<open>reports\<close>,
  \<^verbatim>\<open>repositories\<close>, \<^verbatim>\<open>stats\<close> and \<^verbatim>\<open>isLoading\<close> carry the prefix
  \<open>dash_\<close>, the plain names being taken by the analysis page.
\<close>

record 'r dashboard_state =
  dash_reports :: "'r list"
  dash_repositories :: "repository list"
  dash_stats :: stats
  dash_isLoading :: bool

definition initial_dashboard :: "'r dashboard_state" where
  "initial_dashboard =
     \<lparr>dash_reports = [], dash_repositories = [],
      dash_stats = \<lparr>totalReports = 0, totalRepositories = 0, averageScore = 0,
                     techDebtHours = 0\<rparr>,
      dash_isLoading = False\<rparr>"

text \<open>
  \<open>reportsResponse\<close> and \<open>reposResponse\<close> are the answers of the two GET requests,
  \<open>None\<close> when the request throws; \<open>usr\<close> and \<open>token\<close> are what
  \<^verbatim>\<open>useAuth\<close> gives the component.
\<close>

definition fetchDashboardData ::
  "user_info option \<Rightarrow> string option \<Rightarrow> 'r list option \<Rightarrow>
   (string option \<Rightarrow> repository list option) \<Rightarrow> rat \<Rightarrow> rat \<Rightarrow>
   'r dashboard_state \<Rightarrow> 'r dashboard_state" where
  "fetchDashboardData usr token reportsResponse reposResponse u1 u2 st =
     (let st1 = st\<lparr>dash_isLoading := True\<rparr> in
      case reportsResponse of
        None \<Rightarrow> st1\<lparr>dash_isLoading := False\<rparr>
      | Some reportsData \<Rightarrow>
          (let st2 = st1\<lparr>dash_reports := take 5 reportsData\<rparr> in
           case usr of
             None \<Rightarrow> st2\<lparr>dash_isLoading := False\<rparr>
           | Some _ \<Rightarrow>
               (case reposResponse token of
                  None \<Rightarrow> st2\<lparr>dash_isLoading := False\<rparr>
                | Some reposData \<Rightarrow>
                    st2\<lparr>dash_repositories := take 5 reposData,
                        dash_stats :=
                          \<lparr>totalReports = length reportsData,
                           totalRepositories = length reposData,
                           averageScore =
                             (if length reportsData > 0 then \<lfloor>u1 * 30\<rfloor> + 60 else 0),
                           techDebtHours =
                             (if length reportsData > 0 then \<lfloor>u2 * 200\<rfloor> + 50 else 0)\<rparr>,
                        dash_isLoading := False\<rparr>)))"

section \<open>Report template\<close>

text \<open>
  The Jinja2 template of the HTML report as a tree: static markup, an output expression
  \<^verbatim>\<open>{{ a.b }}\<close> with its dotted path, an \<^verbatim>\<open>{% if %}\<close> block and a
  \<^verbatim>\<open>{% for %}\<close> block with its loop variable.
\<close>

datatype tnode =
    Text string
  | Output "string list"
  | IfBlock "string list" "tnode list"
  | ForBlock string "string list" "tnode list"

text \<open>
  The names a node reads from the context it is rendered with, in order. A path that
  starts with a loop variable of an enclosing \<^verbatim>\<open>for\<close> reads the loop's item, not
  the context.
\<close>

definition free_path :: "string list \<Rightarrow> string list \<Rightarrow> string list list" where
  "free_path bound p =
     (case p of
        [] \<Rightarrow> []
      | x # _ \<Rightarrow> if x \<in> set bound then [] else [p])"

fun reads :: "string list \<Rightarrow> tnode \<Rightarrow> string list list" where
  "reads bound (Text s) = []"
| "reads bound (Output p) = free_path bound p"
| "reads bound (IfBlock p body) = free_path bound p @ concat (map (reads bound) body)"
| "reads bound (ForBlock v p body) =
     free_path bound p @ concat (map (reads (v # bound)) body)"

definition template_reads :: "tnode list \<Rightarrow> string list list" where
  "template_reads t = remdups (concat (map (reads []) t))"

text \<open>
  \<^verbatim>\<open>report_template.html\<close>, one \<open>Text\<close> for the markup of each source line, without
  the indentation.
\<close>

definition report_template :: "tnode list" where
  \<open>report_template =
    [Text ''<!DOCTYPE html>'',
     Text ''<html lang="en">'',
     Text ''<head>'',
     Text ''<meta charset="UTF-8" />'',
     Text ''<meta name="viewport" content="width=device-width, initial-scale=1.0" />'',
     Text ''<title>Tech Health Report - '',
     Output [''repository_name''],
     Text ''</title>'',
     Text ''<style>'',
     Text ''body {'',
     Text ''font-family: Arial, sans-serif;'',
     Text ''line-height: 1.6;'',
     Text ''color: #333;'',
     Text ''max-width: 1000px;'',
     Text ''margin: 0 auto;'',
     Text ''padding: 20px;'',
     Text ''}'',
     Text ''.header {'',
     Text ''text-align: center;'',
     Text ''margin-bottom: 30px;'',
     Text ''border-bottom: 1px solid #ddd;'',
     Text ''padding-bottom: 20px;'',
     Text ''}'',
     Text ''.section {'',
     Text ''margin-bottom: 30px;'',
     Text ''}'',
     Text ''.section-title {'',
     Text ''color: #2c3e50;'',
     Text ''border-bottom: 2px solid #3498db;'',
     Text ''padding-bottom: 10px;'',
     Text ''margin-bottom: 20px;'',
     Text ''}'',
     Text ''.score-card {'',
     Text ''display: flex;'',
     Text ''justify-content: space-between;'',
     Text ''margin-bottom: 20px;'',
     Text ''}'',
     Text ''.score-item {'',
     Text ''background-color: #f8f9fa;'',
     Text ''border-radius: 5px;'',
     Text ''padding: 15px;'',
     Text ''text-align: center;'',
     Text ''flex: 1;'',
     Text ''margin: 0 10px;'',
     Text ''}'',
     Text ''.score-value {'',
     Text ''font-size: 24px;'',
     Text ''font-weight: bold;'',
     Text ''color: #2980b9;'',
     Text ''}'',
     Text ''.score-label {'',
     Text ''color: #7f8c8d;'',
     Text ''}'',
     Text ''table {'',
     Text ''width: 100%;'',
     Text ''border-collapse: collapse;'',
     Text ''margin-bottom: 20px;'',
     Text ''}'',
     Text ''th,'',
     Text ''td {'',
     Text ''border: 1px solid #ddd;'',
     Text ''padding: 12px;'',
     Text ''text-align: left;'',
     Text ''}'',
     Text ''th {'',
     Text ''background-color: #f8f9fa;'',
     Text ''}'',
     Text ''</style>'',
     Text ''</head>'',
     Text ''<body>'',
     Text ''<div class="header">'',
     Text ''<h1>Tech Health Report</h1>'',
     Text ''<p>Repository: '',
     Output [''repository_name''],
     Text ''</p>'',
     Text ''<p>Generated at: '',
     Output [''generated_at''],
     Text ''</p>'',
     IfBlock [''company_name'']
       [Text ''<p>Company: '',
        Output [''company_name''],
        Text ''</p>''],
     Text ''</div>'',
     Text ''<div class="section">'',
     Text ''<h2 class="section-title">Executive Summary</h2>'',
     Text ''<div class="score-card">'',
     Text ''<div class="score-item">'',
     Text ''<div class="score-value">'',
     Output [''overall_score''],
     Text ''/100</div>'',
     Text ''<div class="score-label">Overall Health Score</div>'',
     Text ''</div>'',
     Text ''<div class="score-item">'',
     Text ''<div class="score-value">'',
     Output [''code_quality'', ''maintainability_index''],
     Text ''</div>'',
     Text ''<div class="score-label">Maintainability</div>'',
     Text ''</div>'',
     Text ''<div class="score-item">'',
     Text ''<div class="score-value">'',
     Output [''code_quality'', ''test_coverage''],
     Text ''%</div>'',
     Text ''<div class="score-label">Test Coverage</div>'',
     Text ''</div>'',
     Text ''<div class="score-item">'',
     Text ''<div class="score-value">'',
     Output [''tech_debt'', ''debt_ratio''],
     Text ''%</div>'',
     Text ''<div class="score-label">Technical Debt</div>'',
     Text ''</div>'',
     Text ''</div>'',
     Text ''</div>'',
     Text ''<div class="section">'',
     Text ''<h2 class="section-title">Code Quality</h2>'',
     Text ''<table>'',
     Text ''<thead>'',
     Text ''<tr>'',
     Text ''<th>Metric</th>'',
     Text ''<th>Value</th>'',
     Text ''</tr>'',
     Text ''</thead>'',
     Text ''<tbody>'',
     Text ''<tr>'',
     Text ''<td>Cyclomatic Complexity</td>'',
     Text ''<td>'',
     Output [''code_quality'', ''cyclomatic_complexity''],
     Text ''</td>'',
     Text ''</tr>'',
     Text ''<tr>'',
     Text ''<td>Maintainability Index</td>'',
     Text ''<td>'',
     Output [''code_quality'', ''maintainability_index''],
     Text ''</td>'',
     Text ''</tr>'',
     Text ''<tr>'',
     Text ''<td>Test Coverage</td>'',
     Text ''<td>'',
     Output [''code_quality'', ''test_coverage''],
     Text ''%</td>'',
     Text ''</tr>'',
     Text ''<tr>'',
     Text ''<td>Lines of Code</td>'',
     Text ''<td>'',
     Output [''code_quality'', ''lines_of_code''],
     Text ''</td>'',
     Text ''</tr>'',
     Text ''</tbody>'',
     Text ''</table>'',
     Text ''</div>'',
     Text ''<div class="section">'',
     Text ''<h2 class="section-title">Development Activity</h2>'',
     Text ''<table>'',
     Text ''<thead>'',
     Text ''<tr>'',
     Text ''<th>Metric</th>'',
     Text ''<th>Value</th>'',
     Text ''</tr>'',
     Text ''</thead>'',
     Text ''<tbody>'',
     Text ''<tr>'',
     Text ''<td>Daily Commit Average</td>'',
     Text ''<td>'',
     Output [''commit_frequency'', ''daily_average''],
     Text ''</td>'',
     Text ''</tr>'',
     Text ''<tr>'',
     Text ''<td>Weekly Commit Average</td>'',
     Text ''<td>'',
     Output [''commit_frequency'', ''weekly_average''],
     Text ''</td>'',
     Text ''</tr>'',
     Text ''<tr>'',
     Text ''<td>Contributors Count</td>'',
     Text ''<td>'',
     Output [''commit_frequency'', ''contributors_count''],
     Text ''</td>'',
     Text ''</tr>'',
     Text ''</tbody>'',
     Text ''</table>'',
     Text ''</div>'',
     Text ''<div class="section">'',
     Text ''<h2 class="section-title">Technical Debt</h2>'',
     Text ''<table>'',
     Text ''<thead>'',
     Text ''<tr>'',
     Text ''<th>Metric</th>'',
     Text ''<th>Value</th>'',
     Text ''</tr>'',
     Text ''</thead>'',
     Text ''<tbody>'',
     Text ''<tr>'',
     Text ''<td>Debt Ratio</td>'',
     Text ''<td>'',
     Output [''tech_debt'', ''debt_ratio''],
     Text ''%</td>'',
     Text ''</tr>'',
     Text ''<tr>'',
     Text ''<td>Estimated Hours to Address</td>'',
     Text ''<td>'',
     Output [''tech_debt'', ''estimated_hours''],
     Text ''</td>'',
     Text ''</tr>'',
     Text ''</tbody>'',
     Text ''</table>'',
     Text ''</div>'',
     IfBlock [''recommendations'']
       [Text ''<div class="section">'',
        Text ''<h2 class="section-title">Recommendations</h2>'',
        Text ''<ul>'',
        ForBlock ''recommendation'' [''recommendations'']
          [Text ''<li>'',
           Output [''recommendation''],
           Text ''</li>''],
        Text ''</ul>'',
        Text ''</div>''],
     Text ''<div'',
     Text ''class="footer"'',
     Text ''style="'',
     Text ''text-align: center;'',
     Text ''margin-top: 30px;'',
     Text ''border-top: 1px solid #ddd;'',
     Text ''padding-top: 20px;'',
     Text ''"'',
     Text ''>'',
     Text ''<p>Generated by Tech Health Report</p>'',
     Text ''</div>'',
     Text ''</body>'',
     Text ''</html>'']\<close>

text \<open>
  The field names the specification publishes for the report payload, as it writes them.
\<close>

definition spec_contract_names :: "string list list" where
  "spec_contract_names =
     [[''overall_score''],
      [''quality'', ''maintainability_index''],
      [''debt'', ''debt_ratio_pct''],
      [''commit_frequency'', ''daily_average''],
      [''recommendations'']]"

section \<open>Properties of the URL parser\<close>

lemma takeWhile_run:
  "list_all not_slash g \<Longrightarrow> takeWhile not_slash (g @ CHR ''/'' # r) = g"
  by (induction g) (auto simp: not_slash_def)

lemma dropWhile_run:
  "list_all not_slash g \<Longrightarrow> dropWhile not_slash (g @ CHR ''/'' # r) = CHR ''/'' # r"
  by (induction g) (auto simp: not_slash_def)

lemma takeWhile_stop:
  "post = [] \<or> hd post = CHR ''/'' \<Longrightarrow> takeWhile not_slash post = []"
  by (cases post) (simp_all add: not_slash_def)

lemma takeWhile_run_end:
  "list_all not_slash g \<Longrightarrow> post = [] \<or> hd post = CHR ''/'' \<Longrightarrow>
   takeWhile not_slash (g @ post) = g"
  by (simp add: list_all_iff takeWhile_append2 takeWhile_stop)

text \<open>A match attempt at an occurrence whose repo run ends the string or meets a slash.\<close>

lemma match_at_segments:
  assumes "g1 \<noteq> []" "g2 \<noteq> []" "list_all not_slash g1" "list_all not_slash g2"
    and "post = [] \<or> hd post = CHR ''/''"
  shows "match_at (github_prefix @ g1 @ ''/'' @ g2 @ post) = Some (g1, g2)"
  using assms
  by (simp add: match_at_def takeWhile_run dropWhile_run takeWhile_run_end Let_def)

text \<open>The repo group is greedy: it takes what follows up to the next slash as well.\<close>

lemma match_at_greedy:
  assumes "g1 \<noteq> []" "g2 \<noteq> []" "list_all not_slash g1" "list_all not_slash g2"
  shows "match_at (github_prefix @ g1 @ ''/'' @ g2 @ post) =
         Some (g1, g2 @ takeWhile not_slash post)"
proof -
  have "takeWhile not_slash (g2 @ post) = g2 @ takeWhile not_slash post"
    using assms(4) by (induction g2) auto
  then show ?thesis
    using assms by (simp add: match_at_def takeWhile_run dropWhile_run Let_def)
qed

lemma match_at_SomeD:
  assumes "match_at s = Some (g1, g2)"
  shows "\<exists>post. s = github_prefix @ g1 @ ''/'' @ g2 @ post \<and> g1 \<noteq> [] \<and> g2 \<noteq> [] \<and>
           list_all not_slash g1 \<and> list_all not_slash g2 \<and>
           (post = [] \<or> hd post = CHR ''/'')"
proof -
  from assms have p: "take (length github_prefix) s = github_prefix"
    by (auto simp: match_at_def split: if_splits)
  define rest where "rest = drop (length github_prefix) s"
  have s: "s = github_prefix @ rest"
    using p unfolding rest_def by (metis append_take_drop_id)
  from assms p obtain c rest3 where
    g1: "g1 = takeWhile not_slash rest" "g1 \<noteq> []" and
    r2: "dropWhile not_slash rest = c # rest3" and
    g2: "g2 = takeWhile not_slash rest3" "g2 \<noteq> []"
    by (auto simp: match_at_def Let_def rest_def split: if_splits list.splits)
  have c: "c = CHR ''/''"
    using hd_dropWhile[of not_slash rest] r2 by (simp add: not_slash_def)
  have rest: "rest = g1 @ CHR ''/'' # rest3"
    using takeWhile_dropWhile_id[of not_slash rest] g1 r2 c by simp
  define post where "post = dropWhile not_slash rest3"
  have rest3: "rest3 = g2 @ post"
    unfolding post_def g2(1) by simp
  have post: "post = [] \<or> hd post = CHR ''/''"
    unfolding post_def using hd_dropWhile[of not_slash rest3] by (auto simp: not_slash_def)
  have a1: "list_all not_slash g1"
    unfolding g1(1) list_all_iff using set_takeWhileD by fast
  have a2: "list_all not_slash g2"
    unfolding g2(1) list_all_iff using set_takeWhileD by fast
  have "s = github_prefix @ g1 @ ''/'' @ g2 @ post"
    unfolding s rest rest3 by simp
  with post a1 a2 g1(2) g2(2) show ?thesis by blast
qed

lemma regex_match_here: "match_at s = Some m \<Longrightarrow> regex_match s = Some m"
  by (cases s) auto

text \<open>Start positions that do not match are skipped.\<close>

lemma regex_match_skip:
  "list_all (\<lambda>i. match_at (drop i (pre @ s)) = None) [0..<length pre] \<Longrightarrow>
   regex_match (pre @ s) = regex_match s"
proof (induction pre)
  case Nil
  then show ?case by simp
next
  case (Cons c pre)
  have all: "\<forall>i<Suc (length pre). match_at (drop i ((c # pre) @ s)) = None"
    using Cons.prems by (auto simp: list_all_iff simp del: upt_Suc)
  then have here: "match_at ((c # pre) @ s) = None"
    by (metis drop0 zero_less_Suc)
  have "match_at (drop i (pre @ s)) = None" if "i < length pre" for i
    using all[rule_format, of "Suc i"] that by simp
  then have "list_all (\<lambda>i. match_at (drop i (pre @ s)) = None) [0..<length pre]"
    by (simp add: list_all_iff)
  with here show ?case using Cons.IH by simp
qed

lemma regex_match_SomeD:
  "regex_match s = Some m \<Longrightarrow> \<exists>pre t. s = pre @ t \<and> match_at t = Some m"
proof (induction s)
  case Nil
  then show ?case by simp
next
  case (Cons c s)
  show ?case
  proof (cases "match_at (c # s)")
    case None
    with Cons obtain pre t where "s = pre @ t" "match_at t = Some m" by auto
    then show ?thesis by (metis append_Cons)
  next
    case (Some a)
    with Cons.prems have "match_at (c # s) = Some m" by simp
    then show ?thesis by (metis append_Nil)
  qed
qed

lemma regex_match_append_Some:
  "match_at t = Some m \<Longrightarrow> regex_match (pre @ t) \<noteq> None"
  by (induction pre) (auto simp: regex_match_here split: option.splits)

text \<open>The matcher finds a match exactly on the strings of the expression's language.\<close>

lemma regex_match_None_iff: "regex_match s = None \<longleftrightarrow> \<not> matches_pattern s"
proof
  assume n: "regex_match s = None"
  show "\<not> matches_pattern s"
  proof
    assume "matches_pattern s"
    then obtain pre g1 g2 post where
      "s = pre @ github_prefix @ g1 @ ''/'' @ g2 @ post" "g1 \<noteq> []" "g2 \<noteq> []"
      "list_all not_slash g1" "list_all not_slash g2"
      unfolding matches_pattern_def by blast
    then show False
      using n match_at_greedy regex_match_append_Some by metis
  qed
next
  assume n: "\<not> matches_pattern s"
  show "regex_match s = None"
  proof (rule ccontr)
    assume "regex_match s \<noteq> None"
    then obtain g1 g2 where "regex_match s = Some (g1, g2)" by auto
    then obtain pre t where "s = pre @ t" "match_at t = Some (g1, g2)"
      using regex_match_SomeD by blast
    then have "matches_pattern s"
      using match_at_SomeD unfolding matches_pattern_def by blast
    with n show False by simp
  qed
qed

lemma parseGitHubUrl_None_iff: "parseGitHubUrl s = None \<longleftrightarrow> \<not> matches_pattern s"
  using regex_match_None_iff[of s]
  by (auto simp: parseGitHubUrl_def split: option.splits)

text \<open>\<open>replace_first\<close> leaves a string without an occurrence alone, and removes the
  leftmost occurrence only.\<close>

lemma replace_first_absent:
  "list_all (\<lambda>i. take (length pat) (drop i s) \<noteq> pat) [0..<length s] \<Longrightarrow> pat \<noteq> [] \<Longrightarrow>
   replace_first pat rep s = s"
proof (induction s)
  case Nil
  then show ?case by simp
next
  case (Cons c s)
  have all: "\<forall>i<Suc (length s). take (length pat) (drop i (c # s)) \<noteq> pat"
    using Cons.prems(1) by (auto simp: list_all_iff simp del: upt_Suc)
  then have here: "take (length pat) (c # s) \<noteq> pat"
    by (metis drop0 zero_less_Suc)
  have "take (length pat) (drop i s) \<noteq> pat" if "i < length s" for i
    using all[rule_format, of "Suc i"] that by simp
  then have "list_all (\<lambda>i. take (length pat) (drop i s) \<noteq> pat) [0..<length s]"
    by (simp add: list_all_iff)
  with here Cons.IH Cons.prems(2) show ?case by simp
qed

lemma replace_first_here: "replace_first pat rep (pat @ b) = rep @ b"
proof (cases "pat @ b")
  case Nil
  then show ?thesis by simp
next
  case (Cons x xs)
  have "take (length pat) (x # xs) = pat" "drop (length pat) (x # xs) = b"
    unfolding Cons[symmetric] by simp_all
  then show ?thesis unfolding Cons by simp
qed

lemma replace_first_leftmost:
  "list_all (\<lambda>i. take (length pat) (drop i (a @ pat @ b)) \<noteq> pat) [0..<length a] \<Longrightarrow>
   replace_first pat rep (a @ pat @ b) = a @ rep @ b"
proof (induction a)
  case Nil
  show ?case by (simp add: replace_first_here)
next
  case (Cons c a)
  have all: "\<forall>i<Suc (length a). take (length pat) (drop i ((c # a) @ pat @ b)) \<noteq> pat"
    using Cons.prems by (auto simp: list_all_iff simp del: upt_Suc)
  then have here: "take (length pat) ((c # a) @ pat @ b) \<noteq> pat"
    by (metis drop0 zero_less_Suc)
  have "take (length pat) (drop i (a @ pat @ b)) \<noteq> pat" if "i < length a" for i
    using all[rule_format, of "Suc i"] that by simp
  then have "list_all (\<lambda>i. take (length pat) (drop i (a @ pat @ b)) \<noteq> pat) [0..<length a]"
    by (simp add: list_all_iff)
  with here Cons.IH show ?case by simp
qed

text \<open>
  Claim C10. When the leftmost place at which the expression matches is
  \<^verbatim>\<open>github.com/<owner>/<repo>\<close>, with both segments non-empty and free of slashes and
  the repo segment running to the end of the URL or to the next slash,
  \<^verbatim>\<open>parseGitHubUrl\<close> returns the owner as it is and the repo with its first
  \<^verbatim>\<open>.git\<close> replaced by nothing: a repo without \<^verbatim>\<open>.git\<close> is returned as it is,
  and of several occurrences only the leftmost goes. So \<^verbatim>\<open>name\<close> and \<^verbatim>\<open>name.git\<close>
  both give \<^verbatim>\<open>name\<close>, and \<^verbatim>\<open>my.github.io\<close> gives \<^verbatim>\<open>myhub.io\<close>. The result is
  \<^verbatim>\<open>null\<close> exactly on the strings outside the language of the expression.
\<close>

theorem parseGitHubUrl_segments:
  assumes "o_seg \<noteq> []" "r_seg \<noteq> []" "list_all not_slash o_seg" "list_all not_slash r_seg"
    and "post = [] \<or> hd post = CHR ''/''"
    and "list_all
           (\<lambda>i. match_at (drop i (pre @ github_prefix @ o_seg @ ''/'' @ r_seg @ post)) = None)
           [0..<length pre]"
  shows "parseGitHubUrl (pre @ github_prefix @ o_seg @ ''/'' @ r_seg @ post) =
           Some (o_seg, replace_first ''.git'' '''' r_seg) \<and>
         (list_all (\<lambda>i. take 4 (drop i r_seg) \<noteq> ''.git'') [0..<length r_seg] \<longrightarrow>
            replace_first ''.git'' '''' r_seg = r_seg) \<and>
         (r_seg = a @ ''.git'' @ b \<and>
          list_all (\<lambda>i. take 4 (drop i (a @ ''.git'' @ b)) \<noteq> ''.git'') [0..<length a] \<longrightarrow>
            replace_first ''.git'' '''' r_seg = a @ b) \<and>
         parseGitHubUrl ''https://github.com/acme/name'' = Some (''acme'', ''name'') \<and>
         parseGitHubUrl ''https://github.com/acme/name.git'' = Some (''acme'', ''name'') \<and>
         parseGitHubUrl ''https://github.com/acme/my.github.io'' =
           Some (''acme'', ''myhub.io'') \<and>
         (parseGitHubUrl s = None \<longleftrightarrow> \<not> matches_pattern s)"
proof -
  have "regex_match (pre @ github_prefix @ o_seg @ ''/'' @ r_seg @ post) =
        regex_match (github_prefix @ o_seg @ ''/'' @ r_seg @ post)"
    using assms(6) by (rule regex_match_skip)
  also have "\<dots> = Some (o_seg, r_seg)"
    using assms(1-5) by (intro regex_match_here match_at_segments)
  finally have 1: "parseGitHubUrl (pre @ github_prefix @ o_seg @ ''/'' @ r_seg @ post) =
                   Some (o_seg, replace_first ''.git'' '''' r_seg)"
    by (simp add: parseGitHubUrl_def)
  have len: "length ''.git'' = 4" by simp
  have 2: "list_all (\<lambda>i. take 4 (drop i r_seg) \<noteq> ''.git'') [0..<length r_seg] \<longrightarrow>
           replace_first ''.git'' '''' r_seg = r_seg"
    using replace_first_absent[of "''.git''" r_seg "''''", unfolded len] by auto
  have 3: "r_seg = a @ ''.git'' @ b \<and>
           list_all (\<lambda>i. take 4 (drop i (a @ ''.git'' @ b)) \<noteq> ''.git'') [0..<length a] \<longrightarrow>
           replace_first ''.git'' '''' r_seg = a @ b"
    using replace_first_leftmost[of "''.git''" a b "''''", unfolded len] by auto
  have 4: "parseGitHubUrl ''https://github.com/acme/name'' = Some (''acme'', ''name'')"
    by (simp add: parseGitHubUrl_def match_at_def github_prefix_def not_slash_def)
  have 5: "parseGitHubUrl ''https://github.com/acme/name.git'' = Some (''acme'', ''name'')"
    by (simp add: parseGitHubUrl_def match_at_def github_prefix_def not_slash_def)
  have 6: "parseGitHubUrl ''https://github.com/acme/my.github.io'' =
           Some (''acme'', ''myhub.io'')"
    by (simp add: parseGitHubUrl_def match_at_def github_prefix_def not_slash_def)
  show ?thesis
    using 1 2 3 4 5 6 parseGitHubUrl_None_iff[of s] by blast
qed

theorem parseGitHubUrl_segments_witness:
  "parseGitHubUrl ''https://github.com/octo/cat.git.git/tree/main'' =
     Some (''octo'', ''cat.git'') \<and>
   parseGitHubUrl ''https://github.com/octo/hello'' = Some (''octo'', ''hello'') \<and>
   parseGitHubUrl ''not a repository url'' = None \<and>
   \<not> matches_pattern ''not a repository url''"
proof -
  have h: "list_all
             (\<lambda>i. match_at (drop i (''https://'' @ github_prefix @ ''octo'' @ ''/'' @
                                     ''cat.git.git'' @ ''/tree/main'')) = None)
             [0..<length ''https://'']"
    by (simp add: upt_rec match_at_def github_prefix_def)
  have n: "parseGitHubUrl ''not a repository url'' = None"
    by (simp add: parseGitHubUrl_def match_at_def github_prefix_def)
  have l: "list_all (\<lambda>i. take 4 (drop i (''cat'' @ ''.git'' @ ''.git'')) \<noteq> ''.git'')
             [0..<length ''cat'']"
    by (simp add: upt_rec)
  have 1: "parseGitHubUrl ''https://github.com/octo/cat.git.git/tree/main'' =
             Some (''octo'', ''cat.git'') \<and>
           parseGitHubUrl ''not a repository url'' = None \<and>
           \<not> matches_pattern ''not a repository url''"
    using parseGitHubUrl_segments[of "''octo''" "''cat.git.git''" "''/tree/main''" "''https://''"
        "''cat''" "''.git''" "''not a repository url''"] h n l
    by (simp add: github_prefix_def not_slash_def)
  have h2: "list_all
             (\<lambda>i. match_at (drop i (''https://'' @ github_prefix @ ''octo'' @ ''/'' @
                                     ''hello'' @ '''')) = None)
             [0..<length ''https://'']"
    by (simp add: upt_rec match_at_def github_prefix_def)
  have l2: "list_all (\<lambda>i. take 4 (drop i ''hello'') \<noteq> ''.git'') [0..<length ''hello'']"
    by (simp add: upt_rec)
  have 2: "parseGitHubUrl ''https://github.com/octo/hello'' = Some (''octo'', ''hello'')"
    using parseGitHubUrl_segments[of "''octo''" "''hello''" "''''" "''https://''"
        "''''" "''''" "''''"] h2 l2
    by (simp add: github_prefix_def not_slash_def)
  from 1 2 show ?thesis by blast
qed

section \<open>Properties of startAnalysis\<close>

lemma split_on_not_Nil: "split_on d s \<noteq> []"
  by (induction s) (auto split: list.splits)

lemma resolve_target_selected: "selectedRepo st \<noteq> [] \<Longrightarrow> resolve_target st \<noteq> None"
  using split_on_not_Nil[of "CHR ''/''" "selectedRepo st"]
  by (auto simp: resolve_target_def split: list.splits)

lemma resolve_target_None_iff:
  "resolve_target st = None \<longleftrightarrow> selectedRepo st = [] \<and> \<not> matches_pattern (githubUrl st)"
proof (cases "selectedRepo st = []")
  case True
  then show ?thesis
    using parseGitHubUrl_None_iff[of "githubUrl st"]
    by (auto simp: resolve_target_def split: option.splits)
next
  case False
  then show ?thesis using resolve_target_selected by simp
qed

lemma resolve_target_cong:
  "resolve_target (st\<lparr>error := e, isLoading := l, progress := p\<rparr>) = resolve_target st"
  by (simp add: resolve_target_def)

lemma request_body_cong:
  "request_body (st\<lparr>error := e, isLoading := l, progress := p\<rparr>) g1 g2 = request_body st g1 g2"
  by (simp add: request_body_def)

text \<open>The three ways a call can go.\<close>

lemma startAnalysis_invalid_url:
  assumes "resolve_target st = None"
  shows "startAnalysis rnd tenth post n st =
           (st\<lparr>error := invalid_url_message, isLoading := False, progress := 0\<rparr>, no_effects)"
  using assms by (simp add: startAnalysis_def Let_def resolve_target_cong)

lemma startAnalysis_no_token:
  assumes "resolve_target st = Some (g1, g2)" "accessToken st = []"
  shows "startAnalysis rnd tenth post n st =
           (st\<lparr>error := token_required_message, isLoading := False, progress := 0\<rparr>,
            no_effects)"
  using assms by (simp add: startAnalysis_def Let_def resolve_target_cong)

lemma startAnalysis_resolved:
  assumes "resolve_target st = Some (g1, g2)" "accessToken st \<noteq> []"
    and "post (request_body st g1 g2) = Resolved"
  shows "startAnalysis rnd tenth post n st =
           (st\<lparr>error := '''', isLoading := False, progress := 100\<rparr>,
            \<lparr>requests = [request_body st g1 g2],
             toasts = [Toast ''Analysis Complete''
                         ''Repository analysis and report generation successful''
                         ''success''],
             navigations = [''/reports''],
             progress_shown = map (\<lambda>k. in_flight rnd tenth k 0) [0..<Suc n]\<rparr>)"
  using assms
  by (simp add: startAnalysis_def Let_def resolve_target_cong request_body_cong
           del: upt_Suc)

lemma startAnalysis_rejected:
  assumes "resolve_target st = Some (g1, g2)" "accessToken st \<noteq> []"
    and "post (request_body st g1 g2) = Rejected detail"
  shows "startAnalysis rnd tenth post n st =
           (st\<lparr>error := or_else detail analysis_error_message, isLoading := False,
               progress := 0\<rparr>,
            \<lparr>requests = [request_body st g1 g2],
             toasts = [Toast ''Analysis Failed'' (or_else detail analysis_error_message)
                         ''error''],
             navigations = [],
             progress_shown = map (\<lambda>k. in_flight rnd tenth k 0) [0..<Suc n]\<rparr>)"
  using assms
  by (simp add: startAnalysis_def Let_def resolve_target_cong request_body_cong
           del: upt_Suc)

text \<open>What a call sent, whichever way it went.\<close>

lemma startAnalysis_requests:
  "requests (snd (startAnalysis rnd tenth post n st)) =
     (case resolve_target st of
        None \<Rightarrow> []
      | Some (g1, g2) \<Rightarrow> if accessToken st = [] then [] else [request_body st g1 g2])"
proof (cases "resolve_target st")
  case None
  then show ?thesis by (simp add: startAnalysis_invalid_url no_effects_def)
next
  case (Some t)
  obtain g1 g2 where t: "t = (g1, g2)" by (cases t)
  show ?thesis
  proof (cases "accessToken st = []")
    case True
    then show ?thesis using Some t by (simp add: startAnalysis_no_token no_effects_def)
  next
    case False
    then show ?thesis
      using Some t
      by (cases "post (request_body st g1 g2)")
         (simp_all add: startAnalysis_resolved startAnalysis_rejected)
  qed
qed

lemma startAnalysis_requests_memD:
  assumes "req \<in> set (requests (snd (startAnalysis rnd tenth post n st)))"
  shows "\<exists>g1 g2. resolve_target st = Some (g1, g2) \<and> accessToken st \<noteq> [] \<and>
           req = request_body st g1 g2"
proof (cases "resolve_target st")
  case None
  with assms show ?thesis by (simp add: startAnalysis_requests)
next
  case (Some t)
  obtain g1 g2 where t: "t = (g1, g2)" by (cases t)
  from assms Some t have "accessToken st \<noteq> [] \<and> req = request_body st g1 g2"
    by (simp add: startAnalysis_requests split: if_splits)
  with Some t show ?thesis by blast
qed

lemma or_else_not_Nil: "fallback \<noteq> [] \<Longrightarrow> or_else v fallback \<noteq> []"
  by (simp add: or_else_def split: option.splits)

text \<open>
  Claim C3. When no repository is selected and the URL is outside the language of the
  expression, or when the access token is empty, \<^verbatim>\<open>startAnalysis\<close> sends no request,
  shows no toast, schedules no navigation and creates no timer; it leaves one of its two
  messages in the error cell, and the state it ends in is the one it was called in but
  for that message, the loading flag put back to false and the progress put to 0.
\<close>

theorem startAnalysis_validates_first:
  assumes "(selectedRepo st = [] \<and> \<not> matches_pattern (githubUrl st)) \<or> accessToken st = []"
  shows "requests (snd (startAnalysis rnd tenth post n st)) = [] \<and>
         snd (startAnalysis rnd tenth post n st) = no_effects \<and>
         error (fst (startAnalysis rnd tenth post n st)) \<noteq> [] \<and>
         error (fst (startAnalysis rnd tenth post n st)) \<in>
           {invalid_url_message, token_required_message} \<and>
         fst (startAnalysis rnd tenth post n st) =
           st\<lparr>error := error (fst (startAnalysis rnd tenth post n st)),
              isLoading := False, progress := 0\<rparr>"
proof (cases "resolve_target st")
  case None
  then show ?thesis
    by (simp add: startAnalysis_invalid_url no_effects_def invalid_url_message_def)
next
  case (Some t)
  obtain g1 g2 where t: "t = (g1, g2)" by (cases t)
  from Some have "\<not> (selectedRepo st = [] \<and> \<not> matches_pattern (githubUrl st))"
    using resolve_target_None_iff[of st] by simp
  with assms have "accessToken st = []" by blast
  then show ?thesis
    using Some t
    by (simp add: startAnalysis_no_token no_effects_def token_required_message_def)
qed

theorem startAnalysis_validates_first_witness:
  "requests (snd (startAnalysis (\<lambda>x. x) (1 / 10) (\<lambda>r. Resolved) 3
     (initial_state\<lparr>githubUrl := ''github.com/acme'', accessToken := ''t0ken''\<rparr>))) = [] \<and>
   error (fst (startAnalysis (\<lambda>x. x) (1 / 10) (\<lambda>r. Resolved) 3
     (initial_state\<lparr>githubUrl := ''github.com/acme'', accessToken := ''t0ken''\<rparr>))) =
     invalid_url_message"
proof -
  let ?st = "initial_state\<lparr>githubUrl := ''github.com/acme'', accessToken := ''t0ken''\<rparr>"
  have "parseGitHubUrl ''github.com/acme'' = None"
    by (simp add: parseGitHubUrl_def match_at_def github_prefix_def not_slash_def)
  then have m: "\<not> matches_pattern (githubUrl ?st)"
    using parseGitHubUrl_None_iff[of "''github.com/acme''"] by simp
  have s: "selectedRepo ?st = []" by (simp add: initial_state_def)
  have "resolve_target ?st = None"
    using m s resolve_target_None_iff[of ?st] by blast
  then have e: "error (fst (startAnalysis (\<lambda>x. x) (1 / 10) (\<lambda>r. Resolved) 3 ?st)) =
                invalid_url_message"
    by (simp add: startAnalysis_invalid_url)
  have "requests (snd (startAnalysis (\<lambda>x. x) (1 / 10) (\<lambda>r. Resolved) 3 ?st)) = []"
    using startAnalysis_validates_first[of ?st "\<lambda>x. x" "1 / 10" "\<lambda>r. Resolved" 3] m s
    by blast
  with e show ?thesis by blast
qed

text \<open>
  Claim C5. When the request a call sent is rejected, the error cell and the toast show
  the detail of the response as it came, and the fallback \<^verbatim>\<open>Error during analysis\<close>
  when the response has no detail (a missing one, or an empty one, which says nothing);
  the progress is back at 0, the loading flag is false and no navigation to the reports
  page is scheduled.
\<close>

theorem startAnalysis_failure_surfaced:
  assumes "req \<in> set (requests (snd (startAnalysis rnd tenth post n st)))"
    and "post req = Rejected detail"
  shows "error (fst (startAnalysis rnd tenth post n st)) =
           (case detail of
              None \<Rightarrow> ''Error during analysis''
            | Some d \<Rightarrow> if d = [] then ''Error during analysis'' else d) \<and>
         toasts (snd (startAnalysis rnd tenth post n st)) =
           [Toast ''Analysis Failed''
              (error (fst (startAnalysis rnd tenth post n st))) ''error''] \<and>
         progress (fst (startAnalysis rnd tenth post n st)) = 0 \<and>
         isLoading (fst (startAnalysis rnd tenth post n st)) = False \<and>
         navigations (snd (startAnalysis rnd tenth post n st)) = []"
proof -
  from assms(1) obtain g1 g2 where
    r: "resolve_target st = Some (g1, g2)" and a: "accessToken st \<noteq> []" and
    q: "req = request_body st g1 g2"
    using startAnalysis_requests_memD by blast
  have "post (request_body st g1 g2) = Rejected detail"
    using assms(2) q by simp
  from startAnalysis_rejected[where post = post and rnd = rnd and tenth = tenth and n = n,
        OF r a this]
    show ?thesis
    by (simp add: or_else_def analysis_error_message_def split: option.splits)
qed

theorem startAnalysis_failure_surfaced_witness:
  "error (fst (startAnalysis (\<lambda>x. x) (1 / 10) (\<lambda>r. Rejected (Some ''Repository not found'')) 2
     (initial_state\<lparr>githubUrl := ''github.com/acme/app'', accessToken := ''t0ken''\<rparr>))) =
     ''Repository not found'' \<and>
   progress (fst (startAnalysis (\<lambda>x. x) (1 / 10) (\<lambda>r. Rejected (Some ''Repository not found'')) 2
     (initial_state\<lparr>githubUrl := ''github.com/acme/app'', accessToken := ''t0ken''\<rparr>))) = 0"
proof -
  let ?st = "initial_state\<lparr>githubUrl := ''github.com/acme/app'', accessToken := ''t0ken''\<rparr>"
  let ?post = "\<lambda>r::generate_request. Rejected (Some ''Repository not found'')"
  have p: "parseGitHubUrl ''github.com/acme/app'' = Some (''acme'', ''app'')"
    by (simp add: parseGitHubUrl_def match_at_def github_prefix_def not_slash_def)
  have r: "resolve_target ?st = Some (''acme'', Some ''app'')"
    by (simp add: resolve_target_def initial_state_def p)
  have a: "accessToken ?st \<noteq> []" by simp
  have "request_body ?st ''acme'' (Some ''app'') \<in>
        set (requests (snd (startAnalysis (\<lambda>x. x) (1 / 10) ?post 2 ?st)))"
    using r a by (simp add: startAnalysis_requests)
  from startAnalysis_failure_surfaced[OF this, of "Some ''Repository not found''"]
  show ?thesis by simp
qed

text \<open>
  Claim C6. A call of \<^verbatim>\<open>startAnalysis\<close> sends at most one request. When that request
  is rejected it is the only one sent: the call ends with the error in the error cell and
  the loading flag false, and schedules no navigation.
\<close>

theorem startAnalysis_single_request:
  "length (requests (snd (startAnalysis rnd tenth post n st))) \<le> 1 \<and>
   (req \<in> set (requests (snd (startAnalysis rnd tenth post n st))) \<and>
    post req = Rejected detail \<longrightarrow>
      requests (snd (startAnalysis rnd tenth post n st)) = [req] \<and>
      error (fst (startAnalysis rnd tenth post n st)) \<noteq> [] \<and>
      isLoading (fst (startAnalysis rnd tenth post n st)) = False \<and>
      navigations (snd (startAnalysis rnd tenth post n st)) = [])"
proof -
  have 1: "length (requests (snd (startAnalysis rnd tenth post n st))) \<le> 1"
    by (simp add: startAnalysis_requests split: option.splits)
  have 2: "requests (snd (startAnalysis rnd tenth post n st)) = [req] \<and>
           error (fst (startAnalysis rnd tenth post n st)) \<noteq> [] \<and>
           isLoading (fst (startAnalysis rnd tenth post n st)) = False \<and>
           navigations (snd (startAnalysis rnd tenth post n st)) = []"
    if m: "req \<in> set (requests (snd (startAnalysis rnd tenth post n st)))"
      and p: "post req = Rejected detail"
  proof -
    from m obtain g1 g2 where
      r: "resolve_target st = Some (g1, g2)" and a: "accessToken st \<noteq> []" and
      q: "req = request_body st g1 g2"
      using startAnalysis_requests_memD by blast
    have "post (request_body st g1 g2) = Rejected detail"
      using p q by simp
    from startAnalysis_rejected[where post = post and rnd = rnd and tenth = tenth and n = n,
        OF r a this]
    show ?thesis
      using q by (simp add: or_else_not_Nil analysis_error_message_def)
  qed
  from 1 2 show ?thesis by blast
qed

theorem startAnalysis_single_request_witness:
  "requests (snd (startAnalysis (\<lambda>x. x) (1 / 10) (\<lambda>r. Rejected None) 4
     (initial_state\<lparr>selectedRepo := ''acme/app'', accessToken := ''t0ken''\<rparr>))) =
     [request_body (initial_state\<lparr>selectedRepo := ''acme/app'', accessToken := ''t0ken''\<rparr>)
        ''acme'' (Some ''app'')] \<and>
   navigations (snd (startAnalysis (\<lambda>x. x) (1 / 10) (\<lambda>r. Rejected None) 4
     (initial_state\<lparr>selectedRepo := ''acme/app'', accessToken := ''t0ken''\<rparr>))) = []"
proof -
  let ?st = "initial_state\<lparr>selectedRepo := ''acme/app'', accessToken := ''t0ken''\<rparr>"
  let ?post = "\<lambda>r::generate_request. Rejected None"
  have r: "resolve_target ?st = Some (''acme'', Some ''app'')"
    by (simp add: resolve_target_def)
  have "request_body ?st ''acme'' (Some ''app'') \<in>
        set (requests (snd (startAnalysis (\<lambda>x. x) (1 / 10) ?post 4 ?st)))"
    using r by (simp add: startAnalysis_requests)
  then show ?thesis
    using startAnalysis_single_request[of "\<lambda>x. x" "1 / 10" ?post 4 ?st
        "request_body ?st ''acme'' (Some ''app'')" None]
    by simp
qed

section \<open>Properties of the page as a whole\<close>

lemma startAnalysis_reportFormat:
  "reportFormat (fst (startAnalysis rnd tenth post n st)) = reportFormat st"
proof (cases "resolve_target st")
  case None
  then show ?thesis by (simp add: startAnalysis_invalid_url)
next
  case (Some t)
  obtain g1 g2 where t: "t = (g1, g2)" by (cases t)
  show ?thesis
  proof (cases "accessToken st = []")
    case True
    then show ?thesis using Some t by (simp add: startAnalysis_no_token)
  next
    case False
    then show ?thesis
      using Some t
      by (cases "post (request_body st g1 g2)")
         (simp_all add: startAnalysis_resolved startAnalysis_rejected)
  qed
qed

lemma fetchRepositories_reportFormat:
  "reportFormat (fst (fetchRepositories res st)) = reportFormat st"
  by (simp add: fetchRepositories_def Let_def split: repos_result.splits)

lemma handle_event_reportFormat:
  "reportFormat (fst (handle_event rnd tenth e st)) =
     (case e of ChangeReportFormat f \<Rightarrow> option_value f | _ \<Rightarrow> reportFormat st)"
  by (cases e) (simp_all add: startAnalysis_reportFormat fetchRepositories_reportFormat)

lemma handle_event_requests_format:
  assumes "req \<in> set (requests (snd (handle_event rnd tenth e st)))"
  shows "format req = reportFormat st"
proof (cases e)
  case (ClickStartAnalysis post n)
  with assms have "req \<in> set (requests (snd (startAnalysis rnd tenth post n st)))"
    by (simp add: no_effects_def split: if_splits)
  then obtain g1 g2 where "req = request_body st g1 g2"
    using startAnalysis_requests_memD by blast
  then show ?thesis by (simp add: request_body_def)
qed (use assms in \<open>simp_all add: no_effects_def split: if_splits\<close>)

lemma option_value_in: "option_value f \<in> set report_formats"
  by (cases f) (simp_all add: report_formats_def)

lemma run_events_Cons:
  "snd (run_events rnd tenth (e # es) st) =
     requests (snd (handle_event rnd tenth e st)) @
     snd (run_events rnd tenth es (fst (handle_event rnd tenth e st)))"
  by (simp split: prod.splits)

text \<open>The format cell holds one of the three values all along, and a request copies it.\<close>

lemma run_events_format:
  "reportFormat st \<in> set report_formats \<Longrightarrow>
   req \<in> set (snd (run_events rnd tenth es st)) \<Longrightarrow>
   format req \<in> set report_formats"
proof (induction es arbitrary: st)
  case Nil
  then show ?case by simp
next
  case (Cons e es)
  have inv: "reportFormat (fst (handle_event rnd tenth e st)) \<in> set report_formats"
    using Cons.prems(1) option_value_in
    by (simp add: handle_event_reportFormat split: ui_event.splits)
  from Cons.prems(2) consider
    "req \<in> set (requests (snd (handle_event rnd tenth e st)))" |
    "req \<in> set (snd (run_events rnd tenth es (fst (handle_event rnd tenth e st))))"
    unfolding run_events_Cons by auto
  then show ?case
  proof cases
    case 1
    then show ?thesis using handle_event_requests_format Cons.prems(1) by metis
  next
    case 2
    then show ?thesis using Cons.IH[OF inv] by simp
  qed
qed

lemma run_events_unchanged_format:
  "list_all (\<lambda>e. \<not> is_format_change e) es \<Longrightarrow>
   req \<in> set (snd (run_events rnd tenth es st)) \<Longrightarrow>
   format req = reportFormat st"
proof (induction es arbitrary: st)
  case Nil
  then show ?case by simp
next
  case (Cons e es)
  from Cons.prems(1) have e: "\<not> is_format_change e"
    and es: "list_all (\<lambda>e. \<not> is_format_change e) es" by simp_all
  have same: "reportFormat (fst (handle_event rnd tenth e st)) = reportFormat st"
    using e handle_event_reportFormat[of rnd tenth e st] by (cases e) simp_all
  from Cons.prems(2) consider
    "req \<in> set (requests (snd (handle_event rnd tenth e st)))" |
    "req \<in> set (snd (run_events rnd tenth es (fst (handle_event rnd tenth e st))))"
    unfolding run_events_Cons by auto
  then show ?case
  proof cases
    case 1
    then show ?thesis using handle_event_requests_format by metis
  next
    case 2
    then show ?thesis using Cons.IH[OF es 2] same by simp
  qed
qed

text \<open>A session that sends one request, with the format option \<open>f\<close> chosen before.\<close>

lemma session_with_format:
  "snd (run_events rnd tenth
          [ChangeAccessToken ''t0ken'', ChangeSelectedRepo ''acme/app'',
           ChangeReportFormat f, ClickStartAnalysis (\<lambda>r. Resolved) 0]
          initial_state) =
     [request_body
        (initial_state\<lparr>accessToken := ''t0ken'', selectedRepo := ''acme/app'',
           reportFormat := option_value f\<rparr>)
        ''acme'' (Some ''app'')]"
proof -
  let ?st = "initial_state\<lparr>accessToken := ''t0ken'', selectedRepo := ''acme/app'',
               githubUrl := '''', reportFormat := option_value f\<rparr>"
  have r: "resolve_target ?st = Some (''acme'', Some ''app'')"
    by (simp add: resolve_target_def)
  have "requests (snd (startAnalysis rnd tenth (\<lambda>r. Resolved) 0 ?st)) =
        [request_body ?st ''acme'' (Some ''app'')]"
    using r by (simp add: startAnalysis_requests)
  moreover have "request_body ?st ''acme'' (Some ''app'') =
      request_body
        (initial_state\<lparr>accessToken := ''t0ken'', selectedRepo := ''acme/app'',
           reportFormat := option_value f\<rparr>)
        ''acme'' (Some ''app'')"
    by (simp add: request_body_def)
  moreover have "\<not> start_disabled ?st"
    by (simp add: start_disabled_def initial_state_def)
  ultimately show ?thesis
    by (simp add: run_events_Cons no_effects_def del: run_events.simps(2))
qed

text \<open>A session that sends one request, the format control left alone.\<close>

lemma session_default_format:
  "snd (run_events rnd tenth
          [ChangeAccessToken ''t0ken'', ChangeSelectedRepo ''acme/app'',
           ClickStartAnalysis (\<lambda>r. Resolved) 0]
          initial_state) =
     [request_body (initial_state\<lparr>accessToken := ''t0ken'', selectedRepo := ''acme/app''\<rparr>)
        ''acme'' (Some ''app'')]"
proof -
  let ?st = "initial_state\<lparr>accessToken := ''t0ken'', selectedRepo := ''acme/app'',
               githubUrl := ''''\<rparr>"
  have r: "resolve_target ?st = Some (''acme'', Some ''app'')"
    by (simp add: resolve_target_def)
  have "requests (snd (startAnalysis rnd tenth (\<lambda>r. Resolved) 0 ?st)) =
        [request_body ?st ''acme'' (Some ''app'')]"
    using r by (simp add: startAnalysis_requests)
  moreover have "request_body ?st ''acme'' (Some ''app'') =
      request_body (initial_state\<lparr>accessToken := ''t0ken'', selectedRepo := ''acme/app''\<rparr>)
        ''acme'' (Some ''app'')"
    by (simp add: request_body_def)
  moreover have "\<not> start_disabled ?st"
    by (simp add: start_disabled_def initial_state_def)
  ultimately show ?thesis
    by (simp add: run_events_Cons no_effects_def del: run_events.simps(2))
qed

text \<open>
  Claim C7. Every request sent in a session on the page, from the state the page starts
  in, carries a format among \<^verbatim>\<open>html\<close>, \<^verbatim>\<open>pdf\<close> and \<^verbatim>\<open>markdown\<close>; it is
  \<^verbatim>\<open>html\<close> when the user never touched the format control; and each of the three
  options of the control is the format of the requests of some session.
\<close>

theorem request_format_domain:
  assumes "req \<in> set (snd (run_events rnd tenth es initial_state))"
  shows "format req \<in> {''html'', ''pdf'', ''markdown''} \<and>
         (list_all (\<lambda>e. \<not> is_format_change e) es \<longrightarrow> format req = ''html'') \<and>
         option_value f \<in> {''html'', ''pdf'', ''markdown''} \<and>
         (\<exists>es'. snd (run_events rnd tenth es' initial_state) \<noteq> [] \<and>
                list_all (\<lambda>r. format r = option_value f)
                  (snd (run_events rnd tenth es' initial_state)))"
proof -
  have i: "reportFormat initial_state = ''html''"
    by (simp add: initial_state_def)
  then have "reportFormat initial_state \<in> set report_formats"
    by (simp add: report_formats_def)
  from run_events_format[OF this assms]
  have 1: "format req \<in> {''html'', ''pdf'', ''markdown''}"
    by (simp add: report_formats_def)
  have 2: "list_all (\<lambda>e. \<not> is_format_change e) es \<longrightarrow> format req = ''html''"
    using run_events_unchanged_format[OF _ assms] i by simp
  have 3: "option_value f \<in> {''html'', ''pdf'', ''markdown''}"
    using option_value_in[of f] by (simp add: report_formats_def)
  have 4: "\<exists>es'. snd (run_events rnd tenth es' initial_state) \<noteq> [] \<and>
                list_all (\<lambda>r. format r = option_value f)
                  (snd (run_events rnd tenth es' initial_state))"
    by (rule exI[of _ "[ChangeAccessToken ''t0ken'', ChangeSelectedRepo ''acme/app'',
           ChangeReportFormat f, ClickStartAnalysis (\<lambda>r. Resolved) 0]"])
       (simp only: session_with_format, simp add: request_body_def)
  from 1 2 3 4 show ?thesis by blast
qed

theorem request_format_domain_witness:
  "format (request_body
     (initial_state\<lparr>accessToken := ''t0ken'', selectedRepo := ''acme/app'',
        reportFormat := option_value PDF\<rparr>) ''acme'' (Some ''app''))
     \<in> {''html'', ''pdf'', ''markdown''} \<and>
   format (request_body
     (initial_state\<lparr>accessToken := ''t0ken'', selectedRepo := ''acme/app''\<rparr>)
     ''acme'' (Some ''app'')) = ''html''"
proof -
  let ?req = "request_body
     (initial_state\<lparr>accessToken := ''t0ken'', selectedRepo := ''acme/app'',
        reportFormat := option_value PDF\<rparr>) ''acme'' (Some ''app'')"
  let ?dflt = "request_body
     (initial_state\<lparr>accessToken := ''t0ken'', selectedRepo := ''acme/app''\<rparr>)
     ''acme'' (Some ''app'')"
  have "?req \<in> set (snd (run_events (\<lambda>x. x) (1 / 10)
          [ChangeAccessToken ''t0ken'', ChangeSelectedRepo ''acme/app'',
           ChangeReportFormat PDF, ClickStartAnalysis (\<lambda>r. Resolved) 0]
          initial_state))"
    by (simp only: session_with_format, simp)
  from request_format_domain[OF this, of PDF]
  have 1: "format ?req \<in> {''html'', ''pdf'', ''markdown''}" by blast
  have "?dflt \<in> set (snd (run_events (\<lambda>x. x) (1 / 10)
          [ChangeAccessToken ''t0ken'', ChangeSelectedRepo ''acme/app'',
           ClickStartAnalysis (\<lambda>r. Resolved) 0]
          initial_state))"
    by (simp only: session_default_format, simp)
  from request_format_domain[OF this, of HTML]
  have 2: "format ?dflt = ''html''" by simp
  from 1 2 show ?thesis by blast
qed

section \<open>Properties of the progress timer\<close>

lemma tick_bounds:
  assumes "rounding rnd" "0 \<le> tenth" "rnd p = p" "0 \<le> p" "p \<le> 95"
  shows "p \<le> tick rnd tenth p \<and> tick rnd tenth p \<le> 95 \<and>
         rnd (tick rnd tenth p) = tick rnd tenth p"
proof -
  from assms(1) have m: "mono rnd" and idem: "\<And>x. rnd (rnd x) = rnd x"
    and r0: "rnd 0 = 0" and r5: "rnd 5 = 5" and r95: "rnd 95 = 95"
    by (simp_all add: rounding_def)
  have "5 \<le> 100 - p" using assms(5) by simp
  then have "rnd 5 \<le> rnd (100 - p)" by (rule monoD[OF m])
  then have "0 \<le> rnd (100 - p)" using r5 by simp
  then have "0 \<le> rnd (100 - p) * tenth" using assms(2) by simp
  then have "rnd 0 \<le> rnd (rnd (100 - p) * tenth)" by (rule monoD[OF m])
  then have "p \<le> p + rnd (rnd (100 - p) * tenth)" using r0 by simp
  then have "rnd p \<le> rnd (p + rnd (rnd (100 - p) * tenth))" by (rule monoD[OF m])
  then have ge: "p \<le> rnd (p + rnd (rnd (100 - p) * tenth))" using assms(3) by simp
  show ?thesis
    using ge assms(5) idem r95 by (simp add: tick_def Let_def)
qed

lemma in_flight_Suc:
  "in_flight rnd tenth (Suc n) p = tick rnd tenth (in_flight rnd tenth n p)"
  by (induction n arbitrary: p) simp_all

lemma in_flight_invariant:
  assumes "rounding rnd" "0 \<le> tenth"
  shows "0 \<le> in_flight rnd tenth n 0 \<and> in_flight rnd tenth n 0 \<le> 95 \<and>
         rnd (in_flight rnd tenth n 0) = in_flight rnd tenth n 0"
proof (induction n)
  case 0
  show ?case using assms(1) by (simp add: rounding_def)
next
  case (Suc n)
  from tick_bounds[OF assms, of "in_flight rnd tenth n 0"] Suc
  show ?case unfolding in_flight_Suc by linarith
qed

lemma in_flight_step:
  assumes "rounding rnd" "0 \<le> tenth"
  shows "in_flight rnd tenth n 0 \<le> in_flight rnd tenth (Suc n) 0"
  using tick_bounds[OF assms, of "in_flight rnd tenth n 0"] in_flight_invariant[OF assms, of n]
  unfolding in_flight_Suc by simp

lemma in_flight_mono:
  assumes "rounding rnd" "0 \<le> tenth" "i \<le> j"
  shows "in_flight rnd tenth i 0 \<le> in_flight rnd tenth j 0"
  using in_flight_step[OF assms(1,2)] assms(3) by (rule lift_Suc_mono_le)

lemma shown_sorted:
  assumes "rounding rnd" "0 \<le> tenth"
  shows "sorted (map (\<lambda>k. in_flight rnd tenth k 0) [0..<m])"
proof -
  have "sorted_wrt (\<le>) [0..<m]" by simp
  then have "sorted_wrt (\<lambda>i j. in_flight rnd tenth i 0 \<le> in_flight rnd tenth j 0) [0..<m]"
    by (rule sorted_wrt_mono_rel[rotated]) (use in_flight_mono[OF assms] in blast)
  then show ?thesis by (simp add: sorted_map)
qed

lemma shown_bounds:
  assumes "rounding rnd" "0 \<le> tenth"
  shows "list_all (\<lambda>v. 0 \<le> v \<and> v \<le> 95) (map (\<lambda>k. in_flight rnd tenth k 0) [0..<m])"
  using in_flight_invariant[OF assms] by (simp add: list_all_iff)

lemma startAnalysis_progress_shown:
  "progress_shown (snd (startAnalysis rnd tenth post n st)) = [] \<or>
   progress_shown (snd (startAnalysis rnd tenth post n st)) =
     map (\<lambda>k. in_flight rnd tenth k 0) [0..<Suc n]"
proof (cases "resolve_target st")
  case None
  then show ?thesis by (simp add: startAnalysis_invalid_url no_effects_def)
next
  case (Some t)
  obtain g1 g2 where t: "t = (g1, g2)" by (cases t)
  show ?thesis
  proof (cases "accessToken st = []")
    case True
    then show ?thesis using Some t by (simp add: startAnalysis_no_token no_effects_def)
  next
    case False
    then show ?thesis
      using Some t
      by (cases "post (request_body st g1 g2)")
         (simp_all add: startAnalysis_resolved startAnalysis_rejected del: upt_Suc)
  qed
qed

lemma startAnalysis_final_progress:
  "progress (fst (startAnalysis rnd tenth post n st)) =
     (if \<exists>req. requests (snd (startAnalysis rnd tenth post n st)) = [req] \<and>
               post req = Resolved
      then 100 else 0)"
proof (cases "resolve_target st")
  case None
  then show ?thesis by (simp add: startAnalysis_invalid_url no_effects_def)
next
  case (Some t)
  obtain g1 g2 where t: "t = (g1, g2)" by (cases t)
  show ?thesis
  proof (cases "accessToken st = []")
    case True
    then show ?thesis using Some t by (simp add: startAnalysis_no_token no_effects_def)
  next
    case False
    then show ?thesis
      using Some t
      by (cases "post (request_body st g1 g2)")
         (simp_all add: startAnalysis_resolved startAnalysis_rejected del: upt_Suc)
  qed
qed

text \<open>
  A call that nothing interrupts. With a rounding that is monotone and keeps doubles, and
  a non-negative \<^verbatim>\<open>0.1\<close>: one firing of the timer never lowers a progress between
  0 and 95 and keeps it at most 95; from 0, the progress after any number of firings is
  between 0 and 95 and at most the progress after one firing more; the values the timer
  of the call gives the progress are between 0 and 95 and never go down. When the call
  ends, the progress is 100 exactly when its request was sent and resolved, and 0
  otherwise, in particular when the request was rejected.
\<close>

lemma lone_call_progress:
  assumes "rounding rnd" "0 \<le> tenth"
  shows "(rnd p = p \<and> 0 \<le> p \<and> p \<le> 95 \<longrightarrow>
            p \<le> tick rnd tenth p \<and> tick rnd tenth p \<le> 95) \<and>
         0 \<le> in_flight rnd tenth k 0 \<and> in_flight rnd tenth k 0 \<le> 95 \<and>
         in_flight rnd tenth k 0 \<le> in_flight rnd tenth (Suc k) 0 \<and>
         list_all (\<lambda>v. 0 \<le> v \<and> v \<le> 95)
           (progress_shown (snd (startAnalysis rnd tenth post n st))) \<and>
         sorted (progress_shown (snd (startAnalysis rnd tenth post n st))) \<and>
         (progress (fst (startAnalysis rnd tenth post n st)) = 100 \<longleftrightarrow>
            (\<exists>req. requests (snd (startAnalysis rnd tenth post n st)) = [req] \<and>
                   post req = Resolved)) \<and>
         (req \<in> set (requests (snd (startAnalysis rnd tenth post n st))) \<and>
          post req = Rejected detail \<longrightarrow>
            progress (fst (startAnalysis rnd tenth post n st)) = 0) \<and>
         (progress (fst (startAnalysis rnd tenth post n st)) = 0 \<or>
          progress (fst (startAnalysis rnd tenth post n st)) = 100)"
proof -
  have 1: "rnd p = p \<and> 0 \<le> p \<and> p \<le> 95 \<longrightarrow>
           p \<le> tick rnd tenth p \<and> tick rnd tenth p \<le> 95"
    using tick_bounds[OF assms, of p] by blast
  have 2: "0 \<le> in_flight rnd tenth k 0 \<and> in_flight rnd tenth k 0 \<le> 95"
    using in_flight_invariant[OF assms, of k] by blast
  have 3: "in_flight rnd tenth k 0 \<le> in_flight rnd tenth (Suc k) 0"
    by (rule in_flight_step[OF assms])
  have 4: "list_all (\<lambda>v. 0 \<le> v \<and> v \<le> 95)
             (progress_shown (snd (startAnalysis rnd tenth post n st)))"
    using startAnalysis_progress_shown[of rnd tenth post n st]
      shown_bounds[OF assms, of "Suc n"] by auto
  have 5: "sorted (progress_shown (snd (startAnalysis rnd tenth post n st)))"
    using startAnalysis_progress_shown[of rnd tenth post n st]
      shown_sorted[OF assms, of "Suc n"] by auto
  have 6: "progress (fst (startAnalysis rnd tenth post n st)) = 100 \<longleftrightarrow>
            (\<exists>req. requests (snd (startAnalysis rnd tenth post n st)) = [req] \<and>
                   post req = Resolved)"
    by (simp add: startAnalysis_final_progress)
  have 7: "req \<in> set (requests (snd (startAnalysis rnd tenth post n st))) \<and>
           post req = Rejected detail \<longrightarrow>
             progress (fst (startAnalysis rnd tenth post n st)) = 0"
  proof
    assume a: "req \<in> set (requests (snd (startAnalysis rnd tenth post n st))) \<and>
               post req = Rejected detail"
    then obtain g1 g2 where
      r: "resolve_target st = Some (g1, g2)" and t: "accessToken st \<noteq> []" and
      q: "req = request_body st g1 g2"
      using startAnalysis_requests_memD by blast
    have "post (request_body st g1 g2) = Rejected detail" using a q by simp
    from startAnalysis_rejected[where post = post and rnd = rnd and tenth = tenth and n = n,
        OF r t this]
    show "progress (fst (startAnalysis rnd tenth post n st)) = 0" by simp
  qed
  have 8: "progress (fst (startAnalysis rnd tenth post n st)) = 0 \<or>
           progress (fst (startAnalysis rnd tenth post n st)) = 100"
    by (simp add: startAnalysis_final_progress)
  from 1 2 3 4 5 6 7 8 show ?thesis by blast
qed

section \<open>Properties of overlapping calls\<close>

text \<open>The call taken apart is the call: begin, the timer, settle.\<close>

lemma fetchRepositories_taken_apart:
  "fst (fetchRepositories res st) =
     (if snd (fetchRepositories_begin st)
      then fetchRepositories_settle res (fst (fetchRepositories_begin st))
      else fst (fetchRepositories_begin st))"
  by (simp add: fetchRepositories_def fetchRepositories_begin_def
        fetchRepositories_settle_def Let_def split: repos_result.splits)

lemma startAnalysis_begin_None:
  "snd (startAnalysis_begin st) = None \<longleftrightarrow>
     resolve_target st = None \<or> accessToken st = []"
  by (auto simp: startAnalysis_begin_def Let_def resolve_target_cong split: option.splits)

lemma startAnalysis_taken_apart:
  "fst (startAnalysis rnd tenth post n st) =
     (case snd (startAnalysis_begin st) of
        None \<Rightarrow> fst (startAnalysis_begin st)
      | Some req \<Rightarrow>
          startAnalysis_settle (post req)
            ((fst (startAnalysis_begin st))\<lparr>progress := in_flight rnd tenth n 0\<rparr>))"
proof (cases "resolve_target st")
  case None
  then show ?thesis
    by (simp add: startAnalysis_invalid_url startAnalysis_begin_def Let_def
          resolve_target_cong)
next
  case (Some t)
  obtain g1 g2 where t: "t = (g1, g2)" by (cases t)
  show ?thesis
  proof (cases "accessToken st = []")
    case True
    then show ?thesis
      using Some t
      by (simp add: startAnalysis_no_token startAnalysis_begin_def Let_def
            resolve_target_cong)
  next
    case False
    then show ?thesis
      using Some t
      by (cases "post (request_body st g1 g2)")
         (simp_all add: startAnalysis_resolved startAnalysis_rejected
            startAnalysis_begin_def startAnalysis_settle_def Let_def
            resolve_target_cong request_body_cong)
  qed
qed

lemma after_steps_append:
  "after_steps rnd tenth (xs @ ys) p = after_steps rnd tenth ys (after_steps rnd tenth xs p)"
  by (induction xs arbitrary: p) simp_all

lemma timer_fires_many:
  "mounted p \<Longrightarrow> k \<in> set (calls p) \<Longrightarrow>
   after_steps rnd tenth (replicate n (TimerFires k)) p =
     p\<lparr>cells := (cells p)\<lparr>progress := in_flight rnd tenth n (progress (cells p))\<rparr>\<rparr>"
proof (induction n arbitrary: p)
  case 0
  then show ?case by simp
next
  case (Suc n)
  let ?q = "step rnd tenth (TimerFires k) p"
  have q: "?q = p\<lparr>cells := (cells p)\<lparr>progress := tick rnd tenth (progress (cells p))\<rparr>\<rparr>"
    using Suc.prems by (simp add: step_def)
  then have "mounted ?q" "k \<in> set (calls ?q)" using Suc.prems by simp_all
  from Suc.IH[OF this] show ?case by (simp add: q)
qed

lemma timer_fires_idle:
  "k \<notin> set (calls p) \<Longrightarrow> after_steps rnd tenth (replicate n (TimerFires k)) p = p"
  by (induction n) (simp_all add: step_def)

text \<open>
  A call that nothing interrupts ends in the state \<open>startAnalysis\<close> gives: the click,
  \<open>n\<close> firings of the timer of the call, and the request settling.
\<close>

lemma lone_call_steps:
  assumes "mounted p" "\<not> start_disabled (cells p)" "started p \<notin> set (calls p)"
  shows "cells (after_steps rnd tenth
                  (PressStart # replicate n (TimerFires (started p)) @
                   [PostSettles (started p) res]) p) =
         fst (startAnalysis rnd tenth (\<lambda>r. res) n (cells p))"
proof (cases "snd (startAnalysis_begin (cells p))")
  case None
  define q where "q = p\<lparr>cells := fst (startAnalysis_begin (cells p))\<rparr>"
  have q: "step rnd tenth PressStart p = q"
    using assms(1,2) None by (simp add: step_def q_def)
  have idle: "started p \<notin> set (calls q)" using assms(3) by (simp add: q_def)
  then have "step rnd tenth (PostSettles (started p) res) q = q"
    by (simp add: step_def)
  then have "after_steps rnd tenth
          (replicate n (TimerFires (started p)) @ [PostSettles (started p) res]) q = q"
    using timer_fires_idle[OF idle, of rnd tenth n]
    by (simp add: after_steps_append)
  then show ?thesis
    using None q by (simp add: startAnalysis_taken_apart q_def)
next
  case (Some req)
  define q where "q = p\<lparr>cells := fst (startAnalysis_begin (cells p)),
                  calls := calls p @ [started p], started := Suc (started p),
                  posted := posted p @ [req]\<rparr>"
  have q: "step rnd tenth PressStart p = q"
    using assms(1,2) Some by (simp add: step_def q_def)
  have z: "progress (cells q) = 0"
    by (simp add: q_def startAnalysis_begin_def Let_def split: option.splits)
  have m: "mounted q" and k: "started p \<in> set (calls q)"
    using assms(1) by (simp_all add: q_def)
  define r where "r = q\<lparr>cells := (cells q)\<lparr>progress := in_flight rnd tenth n 0\<rparr>\<rparr>"
  have r: "after_steps rnd tenth (replicate n (TimerFires (started p))) q = r"
    using timer_fires_many[OF m k, of rnd tenth n] z by (simp add: r_def)
  have "mounted r" "started p \<in> set (calls r)" using m k by (simp_all add: r_def)
  then have "cells (step rnd tenth (PostSettles (started p) res) r) =
             startAnalysis_settle res (cells r)"
    by (simp add: step_def)
  then show ?thesis
    using Some q r
    by (simp add: after_steps_append startAnalysis_taken_apart r_def q_def)
qed

text \<open>
  As long as no two calls await at the same time, the progress is between 0 and 95
  whenever a call awaits, and a firing of the timer does not lower it.
\<close>

lemma handle_event_progress:
  "\<not> is_click e \<Longrightarrow> progress (fst (handle_event rnd tenth e st)) = progress st"
  by (cases e) simp_all

lemma step_in_range:
  assumes "rounding rnd" "0 \<le> tenth"
    and "length (calls p) \<le> 1"
    and "calls p \<noteq> [] \<longrightarrow> in_range rnd (progress (cells p))"
    and "calls (step rnd tenth s p) \<noteq> []"
    and "length (calls (step rnd tenth s p)) \<le> 1"
  shows "in_range rnd (progress (cells (step rnd tenth s p)))"
proof (cases "mounted p")
  case False
  then show ?thesis using assms(4,5) by (simp add: step_def)
next
  case True
  have zero: "in_range rnd 0"
    using assms(1) by (simp add: in_range_def rounding_def)
  show ?thesis
  proof (cases s)
    case (Edit e)
    then show ?thesis
      using True assms(4,5) handle_event_progress[of e rnd tenth "cells p"]
      by (simp add: step_def split: if_splits)
  next
    case PressConnect
    then show ?thesis
      using True assms(4,5)
      by (simp add: step_def fetchRepositories_begin_def split: if_splits)
  next
    case (GetSettles res)
    then show ?thesis
      using True assms(4,5)
      by (simp add: step_def fetchRepositories_settle_def
            split: if_splits repos_result.splits)
  next
    case PressStart
    have "progress (fst (startAnalysis_begin (cells p))) = 0"
      by (simp add: startAnalysis_begin_def Let_def split: option.splits)
    then show ?thesis
      using True PressStart assms(4,5) zero
      by (simp add: step_def split: if_splits option.splits)
  next
    case (TimerFires k)
    show ?thesis
    proof (cases "k \<in> set (calls p)")
      case False
      then show ?thesis using True TimerFires assms(4,5) by (simp add: step_def)
    next
      case k: True
      then have "calls p \<noteq> []" by auto
      with assms(4) have r: "in_range rnd (progress (cells p))" by simp
      from tick_bounds[OF assms(1,2), of "progress (cells p)"] r
      have "in_range rnd (tick rnd tenth (progress (cells p)))"
        by (simp add: in_range_def)
      then show ?thesis using True TimerFires k by (simp add: step_def)
    qed
  next
    case (PostSettles k res)
    show ?thesis
    proof (cases "k \<in> set (calls p)")
      case False
      then show ?thesis using True PostSettles assms(4,5) by (simp add: step_def)
    next
      case k: True
      with assms(3) have "calls p = [k]"
        by (cases "calls p") auto
      then have "calls (step rnd tenth s p) = []"
        using True PostSettles by (simp add: step_def)
      with assms(5) show ?thesis by simp
    qed
  next
    case NavigationFires
    then show ?thesis
      using True assms(4,5) by (simp add: step_def split: if_splits)
  qed
qed

lemma run_steps_in_range:
  assumes "rounding rnd" "0 \<le> tenth"
  shows "length (calls p) \<le> 1 \<Longrightarrow>
         calls p \<noteq> [] \<longrightarrow> in_range rnd (progress (cells p)) \<Longrightarrow>
         list_all (\<lambda>q. length (calls q) \<le> 1) (run_steps rnd tenth ss p) \<Longrightarrow>
         list_all (\<lambda>q. calls q \<noteq> [] \<longrightarrow> in_range rnd (progress (cells q)))
           (run_steps rnd tenth ss p)"
proof (induction ss arbitrary: p)
  case Nil
  then show ?case by simp
next
  case (Cons s ss)
  let ?q = "step rnd tenth s p"
  from Cons.prems(3) have l: "length (calls ?q) \<le> 1"
    and rest: "list_all (\<lambda>q. length (calls q) \<le> 1) (run_steps rnd tenth ss ?q)"
    by simp_all
  have i: "calls ?q \<noteq> [] \<longrightarrow> in_range rnd (progress (cells ?q))"
    using step_in_range[OF assms Cons.prems(1,2) _ l] by blast
  from Cons.IH[OF l i rest] i show ?case by simp
qed

lemma timer_step_mono:
  assumes "rounding rnd" "0 \<le> tenth" "in_range rnd (progress (cells p))"
  shows "progress (cells p) \<le> progress (cells (step rnd tenth (TimerFires k) p))"
  using tick_bounds[OF assms(1,2), of "progress (cells p)"] assms(3)
  by (simp add: step_def in_range_def)

text \<open>
  Claim C9 fails on the code. The user enters a token and a URL and clicks Start; the
  timer of the call fires once and the progress is 10. The Connect button is now enabled,
  the user clicks it, and when its request settles the loading flag is false although
  the first call still awaits. Start is enabled again, the user clicks it, and the
  progress goes back to 0. The request of the first call resolves and puts the progress
  to 100 while the second call awaits; the timer of the second call fires and lowers the
  progress from 100 to 95. Shown are the progress, the calls that await and the loading
  flag after each step. The values are the same in double precision.
\<close>

theorem overlapping_calls_progress:
  "map (\<lambda>q. (progress (cells q), calls q, isLoading (cells q)))
     (run_steps (\<lambda>x. x) (1 / 10)
        [Edit (ChangeAccessToken ''t0ken''),
         Edit (ChangeGithubUrl ''https://github.com/acme/app''),
         PressStart,
         TimerFires 0,
         PressConnect,
         GetSettles (ReposOk []),
         PressStart,
         PostSettles 0 Resolved,
         TimerFires 1]
        initial_page) =
     [(0, [], False),
      (0, [], False),
      (0, [0], True),
      (10, [0], True),
      (10, [0], True),
      (10, [0], False),
      (0, [0, 1], True),
      (100, [1], False),
      (95, [1], False)]"
  by code_simp

section \<open>Properties of the authentication provider\<close>

lemma login_connected:
  assumes "connect token = Responded d" "connected d"
  shows "login token connect st =
           (\<lparr>success = True, message = None\<rparr>,
            st\<lparr>localStorage := (localStorage st)(token_key \<mapsto> token),
               githubToken := Some token, user := user_of d, location := ''/'',
               loading := False\<rparr>)"
  using assms by (simp add: login_def Let_def)

lemma login_refused:
  assumes "connect token = Responded d" "\<not> connected d"
  shows "login token connect st =
           (\<lparr>success = False, message = Some ''Failed to connect to GitHub''\<rparr>,
            st\<lparr>loading := False\<rparr>)"
  using assms by (simp add: login_def Let_def)

lemma login_threw:
  assumes "connect token = Threw detail"
  shows "login token connect st =
           (\<lparr>success = False, message = Some (or_else detail ''Invalid GitHub token'')\<rparr>,
            st\<lparr>loading := False\<rparr>)"
  using assms by (simp add: login_def Let_def)

lemma connected_user: "connected d \<Longrightarrow> user_of d \<noteq> None"
  by (cases d) (simp_all add: connected_def user_of_def)

text \<open>
  Claim C8. \<^verbatim>\<open>login(token)\<close> returns \<^verbatim>\<open>success: true\<close> exactly when the connect
  endpoint answers with the status \<^verbatim>\<open>connected\<close>. In that case the token is in
  \<^verbatim>\<open>localStorage\<close> and in the state, and the user is set. On any other answer and on
  a thrown error it returns \<^verbatim>\<open>success: false\<close> with a message that is not empty,
  and the stored token, the token in the state, the user and the route are as they were.
\<close>

theorem login_atomic:
  "(if is_connected (connect token)
    then success (fst (login token connect st)) \<and>
         message (fst (login token connect st)) = None \<and>
         localStorage (snd (login token connect st)) token_key = Some token \<and>
         githubToken (snd (login token connect st)) = Some token \<and>
         user (snd (login token connect st)) \<noteq> None \<and>
         location (snd (login token connect st)) = ''/''
    else \<not> success (fst (login token connect st)) \<and>
         message (fst (login token connect st)) \<noteq> None \<and>
         message (fst (login token connect st)) \<noteq> Some [] \<and>
         localStorage (snd (login token connect st)) = localStorage st \<and>
         githubToken (snd (login token connect st)) = githubToken st \<and>
         user (snd (login token connect st)) = user st \<and>
         location (snd (login token connect st)) = location st) \<and>
   loading (snd (login token connect st)) = False"
proof (cases "connect token")
  case (Responded d)
  show ?thesis
  proof (cases "connected d")
    case True
    then show ?thesis
      using Responded connected_user[of d] by (simp add: login_connected)
  next
    case False
    then show ?thesis
      using Responded by (simp add: login_refused)
  qed
next
  case (Threw detail)
  then show ?thesis
    using or_else_not_Nil[of "''Invalid GitHub token''" detail]
    by (simp add: login_threw)
qed

theorem login_atomic_witness:
  "success (fst (login ''ghp_abc'' (\<lambda>t. Responded (Some (ConnectData ''connected'' ''octocat'')))
     (initial_auth Map.empty ''/login''))) \<and>
   githubToken (snd (login ''ghp_abc''
     (\<lambda>t. Responded (Some (ConnectData ''connected'' ''octocat'')))
     (initial_auth Map.empty ''/login''))) = Some ''ghp_abc'' \<and>
   \<not> success (fst (login ''ghp_abc'' (\<lambda>t. Threw (Some ''Bad credentials''))
     (initial_auth Map.empty ''/login''))) \<and>
   githubToken (snd (login ''ghp_abc'' (\<lambda>t. Threw (Some ''Bad credentials''))
     (initial_auth Map.empty ''/login''))) = None"
proof -
  have c: "is_connected (Responded (Some (ConnectData ''connected'' ''octocat'')))"
    by (simp add: connected_def)
  have n: "\<not> is_connected (Threw (Some ''Bad credentials''))"
    by simp
  have g: "githubToken (initial_auth Map.empty ''/login'') = None"
    by (simp add: initial_auth_def)
  from login_atomic[of "\<lambda>t. Responded (Some (ConnectData ''connected'' ''octocat''))"
      "''ghp_abc''" "initial_auth Map.empty ''/login''"] c
  have 1: "success (fst (login ''ghp_abc''
             (\<lambda>t. Responded (Some (ConnectData ''connected'' ''octocat'')))
             (initial_auth Map.empty ''/login'')))"
    and 2: "githubToken (snd (login ''ghp_abc''
              (\<lambda>t. Responded (Some (ConnectData ''connected'' ''octocat'')))
              (initial_auth Map.empty ''/login''))) = Some ''ghp_abc''"
    by simp_all
  from login_atomic[of "\<lambda>t. Threw (Some ''Bad credentials'')"
      "''ghp_abc''" "initial_auth Map.empty ''/login''"] n g
  have 3: "\<not> success (fst (login ''ghp_abc'' (\<lambda>t. Threw (Some ''Bad credentials''))
             (initial_auth Map.empty ''/login'')))"
    and 4: "githubToken (snd (login ''ghp_abc'' (\<lambda>t. Threw (Some ''Bad credentials''))
              (initial_auth Map.empty ''/login''))) = None"
    by simp_all
  from 1 2 3 4 show ?thesis by blast
qed

text \<open>
  Claim C4, as the code has it. A login that succeeds writes the token to
  \<^verbatim>\<open>localStorage\<close> under the key \<^verbatim>\<open>github_token\<close>, where it outlives the page: the
  provider reads it back when it starts. A login that fails leaves \<^verbatim>\<open>localStorage\<close>
  as it was. After a logout no token is stored under the key and none is in the state.
  Neither function touches another key.
\<close>

theorem token_storage:
  "(if is_connected (connect token)
    then localStorage (snd (login token connect st)) token_key = Some token
    else localStorage (snd (login token connect st)) = localStorage st) \<and>
   (k \<noteq> token_key \<longrightarrow>
      localStorage (snd (login token connect st)) k = localStorage st k \<and>
      localStorage (logout st) k = localStorage st k) \<and>
   localStorage (logout st) token_key = None \<and>
   githubToken (logout st) = None \<and>
   user (logout st) = None \<and>
   (token \<noteq> [] \<longrightarrow>
      githubToken (initial_auth ((localStorage st)(token_key \<mapsto> token)) path) = Some token) \<and>
   githubToken (initial_auth (localStorage (logout st)) path) = None"
proof -
  have 1: "if is_connected (connect token)
           then localStorage (snd (login token connect st)) token_key = Some token
           else localStorage (snd (login token connect st)) = localStorage st"
  proof (cases "connect token")
    case (Responded d)
    then show ?thesis
      by (cases "connected d") (simp_all add: login_connected login_refused)
  next
    case (Threw detail)
    then show ?thesis by (simp add: login_threw)
  qed
  have 2: "k \<noteq> token_key \<longrightarrow>
      localStorage (snd (login token connect st)) k = localStorage st k \<and>
      localStorage (logout st) k = localStorage st k"
  proof (cases "connect token")
    case (Responded d)
    then show ?thesis
      by (cases "connected d") (simp_all add: login_connected login_refused logout_def)
  next
    case (Threw detail)
    then show ?thesis by (simp add: login_threw logout_def)
  qed
  have 3: "localStorage (logout st) token_key = None \<and> githubToken (logout st) = None \<and>
           user (logout st) = None"
    by (simp add: logout_def)
  have 4: "token \<noteq> [] \<longrightarrow>
      githubToken (initial_auth ((localStorage st)(token_key \<mapsto> token)) path) = Some token"
    by (simp add: initial_auth_def)
  have 5: "githubToken (initial_auth (localStorage (logout st)) path) = None"
    by (simp add: initial_auth_def logout_def)
  from 1 2 3 4 5 show ?thesis by blast
qed

theorem token_storage_witness:
  "localStorage (snd (login ''ghp_abc''
     (\<lambda>t. Responded (Some (ConnectData ''connected'' ''octocat'')))
     (initial_auth [''theme'' \<mapsto> ''dark''] ''/login''))) token_key = Some ''ghp_abc'' \<and>
   localStorage (snd (login ''ghp_abc''
     (\<lambda>t. Responded (Some (ConnectData ''connected'' ''octocat'')))
     (initial_auth [''theme'' \<mapsto> ''dark''] ''/login''))) ''theme'' = Some ''dark'' \<and>
   localStorage (logout (initial_auth [token_key \<mapsto> ''ghp_abc''] ''/'')) token_key = None \<and>
   githubToken (initial_auth [token_key \<mapsto> ''ghp_abc''] ''/'') = Some ''ghp_abc''"
proof -
  have c: "is_connected (Responded (Some (ConnectData ''connected'' ''octocat'')))"
    by (simp add: connected_def)
  have k: "''theme'' \<noteq> token_key" by (simp add: token_key_def)
  have t: "localStorage (initial_auth [''theme'' \<mapsto> ''dark''] ''/login'') ''theme'' =
           Some ''dark''"
    by (simp add: initial_auth_def)
  from token_storage[of "\<lambda>t. Responded (Some (ConnectData ''connected'' ''octocat''))"
      "''ghp_abc''" "initial_auth [''theme'' \<mapsto> ''dark''] ''/login''" "''theme''"] c k t
  have 1: "localStorage (snd (login ''ghp_abc''
     (\<lambda>t. Responded (Some (ConnectData ''connected'' ''octocat'')))
     (initial_auth [''theme'' \<mapsto> ''dark''] ''/login''))) token_key = Some ''ghp_abc''"
    and 2: "localStorage (snd (login ''ghp_abc''
     (\<lambda>t. Responded (Some (ConnectData ''connected'' ''octocat'')))
     (initial_auth [''theme'' \<mapsto> ''dark''] ''/login''))) ''theme'' = Some ''dark''"
    by simp_all
  from token_storage[of "\<lambda>t. Threw None" "''x''"
      "initial_auth [token_key \<mapsto> ''ghp_abc''] ''/''" "''theme''"]
  have 3: "localStorage (logout (initial_auth [token_key \<mapsto> ''ghp_abc''] ''/'')) token_key =
           None"
    by blast
  have e: "localStorage (initial_auth Map.empty ''/'') = Map.empty"
    by (simp add: initial_auth_def)
  from token_storage[of "\<lambda>t. Threw None" "''ghp_abc''" "initial_auth Map.empty ''/''"
      "''theme''" "''/''"] e
  have 4: "githubToken (initial_auth [token_key \<mapsto> ''ghp_abc''] ''/'') = Some ''ghp_abc''"
    by simp
  from 1 2 3 4 show ?thesis by blast
qed

text \<open>
  Claim C4 as the specification states it fails: nothing was stored before this login,
  the login succeeds, and after it the token is in \<^verbatim>\<open>localStorage\<close>.
\<close>

theorem token_persisted_counterexample:
  "success (fst (login ''ghp_abc''
     (\<lambda>t. Responded (Some (ConnectData ''connected'' ''octocat'')))
     (initial_auth Map.empty ''/login''))) \<and>
   localStorage (initial_auth Map.empty ''/login'') token_key = None \<and>
   localStorage (snd (login ''ghp_abc''
     (\<lambda>t. Responded (Some (ConnectData ''connected'' ''octocat'')))
     (initial_auth Map.empty ''/login''))) token_key = Some ''ghp_abc''"
  by (simp add: login_def Let_def connected_def initial_auth_def)

section \<open>Properties of the dashboard statistics\<close>

text \<open>
  Claim C1 fails on the code. With the same user, the same token and the same answers of
  the two requests, two runs of \<^verbatim>\<open>fetchDashboardData\<close> that differ only in what
  \<^verbatim>\<open>Math.random()\<close> returns show different average scores and different debt hours;
  the two counts are the same.
\<close>

theorem dashboard_stats_random:
  "dash_stats (fetchDashboardData (Some \<lparr>username = ''octocat'', avatar = ''a.png''\<rparr>)
     (Some ''ghp_abc'') (Some [''report-1'']) (\<lambda>t. Some [Repository ''octocat'' ''app''])
     0 0 initial_dashboard) =
     \<lparr>totalReports = 1, totalRepositories = 1, averageScore = 60, techDebtHours = 50\<rparr> \<and>
   dash_stats (fetchDashboardData (Some \<lparr>username = ''octocat'', avatar = ''a.png''\<rparr>)
     (Some ''ghp_abc'') (Some [''report-1'']) (\<lambda>t. Some [Repository ''octocat'' ''app''])
     (1 / 2) (1 / 2) initial_dashboard) =
     \<lparr>totalReports = 1, totalRepositories = 1, averageScore = 75, techDebtHours = 150\<rparr>"
  by (simp add: fetchDashboardData_def Let_def initial_dashboard_def)

section \<open>Properties of the report template\<close>

lemma template_reads_list:
  "template_reads report_template =
     [[''repository_name''], [''generated_at''], [''company_name''],
      [''overall_score''], [''code_quality'', ''cyclomatic_complexity''],
      [''code_quality'', ''maintainability_index''],
      [''code_quality'', ''test_coverage''],
      [''code_quality'', ''lines_of_code''],
      [''commit_frequency'', ''daily_average''],
      [''commit_frequency'', ''weekly_average''],
      [''commit_frequency'', ''contributors_count''],
      [''tech_debt'', ''debt_ratio''], [''tech_debt'', ''estimated_hours''],
      [''recommendations'']]"
  by code_simp

text \<open>
  Claim C2, as the code has it. The template reads fourteen names from its context. The
  overall score, the daily commit average and the recommendations are read under the
  names the specification publishes; the maintainability index is read as
  \<^verbatim>\<open>code_quality.maintainability_index\<close> and the debt ratio as
  \<^verbatim>\<open>tech_debt.debt_ratio\<close>.
\<close>

theorem template_reads_names:
  "set (template_reads report_template) =
     set [[''repository_name''], [''generated_at''], [''company_name''],
          [''overall_score''],
          [''code_quality'', ''maintainability_index''],
          [''code_quality'', ''test_coverage''],
          [''code_quality'', ''cyclomatic_complexity''],
          [''code_quality'', ''lines_of_code''],
          [''commit_frequency'', ''daily_average''],
          [''commit_frequency'', ''weekly_average''],
          [''commit_frequency'', ''contributors_count''],
          [''tech_debt'', ''debt_ratio''], [''tech_debt'', ''estimated_hours''],
          [''recommendations'']] \<and>
   [''overall_score''] \<in> set (template_reads report_template) \<and>
   [''code_quality'', ''maintainability_index''] \<in> set (template_reads report_template) \<and>
   [''tech_debt'', ''debt_ratio''] \<in> set (template_reads report_template) \<and>
   [''commit_frequency'', ''daily_average''] \<in> set (template_reads report_template) \<and>
   [''recommendations''] \<in> set (template_reads report_template)"
  unfolding template_reads_list by (simp add: insert_commute)

text \<open>
  Claim C2 as the specification states it fails: the names
  \<^verbatim>\<open>quality.maintainability_index\<close> and \<^verbatim>\<open>debt.debt_ratio_pct\<close> are not read by
  the template.
\<close>

theorem template_contract_counterexample:
  "\<not> set spec_contract_names \<subseteq> set (template_reads report_template) \<and>
   [''quality'', ''maintainability_index''] \<notin> set (template_reads report_template) \<and>
   [''debt'', ''debt_ratio_pct''] \<notin> set (template_reads report_template)"
  unfolding template_reads_list by (simp add: spec_contract_names_def)

end
